theory Spec2Isabelle
  imports Complex_Main "HOL-Library.Multiset"
begin

section \<open>Configuration and frames\<close>

text \<open>
  The entry of one template in \<^verbatim>\<open>config["templates"]\<close>
  (\<^verbatim>\<open>ImageProcessor.template_configs\<close>). Every key is optional; the code reads each with
  \<^verbatim>\<open>.get(key, default)\<close>.
\<close>

record tconf =
  cfg_threshold :: "real option"
  cfg_priority :: "int option"
  cfg_delay_after :: "(real \<times> real) option"

text \<open>
  The settings the engine reads. \<open>template_files\<close> gives, for every template whose image
  file can be loaded from the images directory, its shape (height, width); a name that is not
  in its domain is a template that \<^verbatim>\<open>load_template\<close> answers with \<^verbatim>\<open>None\<close>.
  \<open>special_buttons\<close> is \<^verbatim>\<open>module_config["special_buttons"]\<close>: a button name to its
  optional \<^verbatim>\<open>delay_after\<close> list.
\<close>

record config =
  templates :: "string \<rightharpoonup> tconf"
  template_files :: "string \<rightharpoonup> (nat \<times> nat)"
  template_sets :: "string list"
  special_buttons :: "string \<rightharpoonup> real list option"
  max_single_run_time :: "real option"
  switch_interval :: "real option"

text \<open>
  A frame is what the matcher sees of a screenshot: for every template name the result of
  \<^verbatim>\<open>cv2.matchTemplate\<close> followed by \<^verbatim>\<open>cv2.minMaxLoc\<close>, that is the best score
  and its location (x, y), and the shape of the raster.
\<close>

record frame =
  best_match :: "string \<Rightarrow> real \<times> int \<times> int"
  frame_height :: nat
  frame_width :: nat

section \<open>ImageProcessor\<close>

definition load_template :: "config \<Rightarrow> string \<Rightarrow> (nat \<times> nat) option" where
  "load_template cfg template_name = template_files cfg template_name"

text \<open>\<^verbatim>\<open>self.template_configs.get(template_name, {}).get("threshold", 0.8)\<close>\<close>

definition threshold_of :: "config \<Rightarrow> string \<Rightarrow> real" where
  "threshold_of cfg template_name =
     (case templates cfg template_name of
        None \<Rightarrow> 0.8
      | Some tc \<Rightarrow> (case cfg_threshold tc of None \<Rightarrow> 0.8 | Some t \<Rightarrow> t))"

text \<open>\<^verbatim>\<open>self.template_configs.get(template_name, {}).get("priority", 0)\<close>\<close>

definition priority_of :: "config \<Rightarrow> string \<Rightarrow> int" where
  "priority_of cfg template_name =
     (case templates cfg template_name of
        None \<Rightarrow> 0
      | Some tc \<Rightarrow> (case cfg_priority tc of None \<Rightarrow> 0 | Some p \<Rightarrow> p))"

text \<open>
  \<^verbatim>\<open>ImageProcessor.find_template\<close>: no template, no match; otherwise the centre of the best
  match when its score reaches the threshold of the template.
\<close>

definition find_template :: "config \<Rightarrow> string \<Rightarrow> frame \<Rightarrow> (int \<times> int) option" where
  "find_template cfg template_name screen =
     (case load_template cfg template_name of
        None \<Rightarrow> None
      | Some (h, w) \<Rightarrow>
          (case best_match screen template_name of
             (max_val, loc_x, loc_y) \<Rightarrow>
               if max_val \<ge> threshold_of cfg template_name
               then Some (loc_x + int (w div 2), loc_y + int (h div 2))
               else None))"

text \<open>One element of the list \<^verbatim>\<open>detect_all_buttons\<close> returns.\<close>

record button =
  name :: string
  position :: "int \<times> int"
  score :: real
  priority :: int

text \<open>
  The \<^verbatim>\<open>for\<close> loop of \<^verbatim>\<open>detect_all_buttons\<close>: the templates that are found, in the
  order of \<^verbatim>\<open>template_names\<close>, each with the score of its best match and its priority.
\<close>

fun collect_buttons :: "config \<Rightarrow> frame \<Rightarrow> string list \<Rightarrow> button list" where
  "collect_buttons cfg screen [] = []"
| "collect_buttons cfg screen (template_name # rest) =
     (case find_template cfg template_name screen of
        None \<Rightarrow> collect_buttons cfg screen rest
      | Some pos \<Rightarrow>
          \<lparr>name = template_name, position = pos,
           score = fst (best_match screen template_name),
           priority = priority_of cfg template_name\<rparr>
          # collect_buttons cfg screen rest)"

text \<open>
  \<^verbatim>\<open>results.sort(key=lambda x: x["priority"])\<close>: Python's sort is stable and compares the
  key only, as \<^const>\<open>sort_key\<close> does.
\<close>

definition detect_all_buttons :: "config \<Rightarrow> frame \<Rightarrow> string list \<Rightarrow> button list" where
  "detect_all_buttons cfg screen template_names =
     sort_key priority (collect_buttons cfg screen template_names)"

text \<open>
  The order the specification asks of the candidate list: ascending priority, and among equal
  priorities descending score.
\<close>

definition spec_candidate_order :: "button \<Rightarrow> button \<Rightarrow> bool" where
  "spec_candidate_order a b \<longleftrightarrow>
     priority a < priority b \<or> (priority a = priority b \<and> score a \<ge> score b)"

text \<open>A catalogue of two templates with default threshold and priority, and a frame showing both.\<close>

definition two_button_config :: config where
  "two_button_config =
     \<lparr>templates = Map.empty,
      template_files = [''button1'' \<mapsto> (40, 60), ''button2'' \<mapsto> (40, 60)],
      template_sets = [''button1'', ''button2''],
      special_buttons = Map.empty,
      max_single_run_time = None,
      switch_interval = None\<rparr>"

definition two_button_frame :: frame where
  "two_button_frame =
     \<lparr>best_match = (\<lambda>n. if n = ''button1'' then (0.85, 100, 200)
                          else if n = ''button2'' then (0.95, 300, 400)
                          else (0.1, 0, 0)),
      frame_height = 720, frame_width = 1280\<rparr>"

section \<open>Session state and environment\<close>

text \<open>
  What the engine does to the outside, in the order it does it. Each event is logged with the
  clock reading at which it was issued.
\<close>

datatype event =
    Sleep real
  | Capture bool
  | Find string
  | DetectAll "string list"
  | RandomClick "string option" int int
  | Tap int int bool
  | SwitchDevice string
  | SetPause
  | SetStop

datatype error = NameError | TypeError | ValueError

text \<open>
  The mutable state of one session (the fields of \<^verbatim>\<open>DeviceManager\<close>,
  \<^verbatim>\<open>AutomationModule\<close>, \<^verbatim>\<open>YuhunModule\<close> and \<^verbatim>\<open>BaiguiModule\<close> the engine reads or
  writes, and the two \<^verbatim>\<open>threading.Event\<close>s), together with the environment: the clock
  \<open>now\<close>, and the scripts of what the device will answer. \<open>captures\<close> holds, for each
  coming screenshot, how long it blocks and the frame it yields (\<open>None\<close>: the capture
  fails); \<open>taps\<close> holds, for each coming \<^verbatim>\<open>adb shell input tap\<close>, how long it blocks and
  whether it succeeds; \<open>rand_ints\<close> and \<open>rand_floats\<close> hold the coming draws of the random
  generator. An exhausted script answers with failure (captures, taps) or zero (draws). The
  clock advances by sleeping and by the blocking of captures and taps; matching costs no time.

  The state is that of one session running by itself. In the program one \<^verbatim>\<open>DeviceManager\<close>
  serves every session of an engine, and the controller thread sets the events and can call
  \<^verbatim>\<open>switch_device\<close> as well; what other threads do to these fields between two steps of a
  session is outside the model.
\<close>

record state =
  now :: real
  stop_event :: bool
  pause_event :: bool
  devices :: "(string \<times> string) list"
  active_device :: "(string \<times> string) option"
  last_device_switch_time :: real
  last_button_clicked :: "string option"
  check_notupo_after_button10 :: bool
  last_button10_click_time :: real
  consecutive_errors :: nat
  captures :: "(real \<times> frame option) list"
  taps :: "(real \<times> bool) list"
  rand_ints :: "nat list"
  rand_floats :: "real list"
  log :: "(real \<times> event) list"

definition emit :: "event \<Rightarrow> state \<Rightarrow> state" where
  "emit e s = s\<lparr>log := log s @ [(now s, e)]\<rparr>"

text \<open>\<^verbatim>\<open>time.sleep(d)\<close> for a delay that is not negative.\<close>

definition sleep :: "real \<Rightarrow> state \<Rightarrow> state" where
  "sleep d s = (emit (Sleep d) s)\<lparr>now := now s + d\<rparr>"

text \<open>\<^verbatim>\<open>random.randint(a, b)\<close>, called with \<open>a \<le> b\<close> only.\<close>

definition randint :: "int \<Rightarrow> int \<Rightarrow> state \<Rightarrow> int \<times> state" where
  "randint a b s =
     (case rand_ints s of
        [] \<Rightarrow> (a, s)
      | k # rest \<Rightarrow> (a + int (k mod nat (b - a + 1)), s\<lparr>rand_ints := rest\<rparr>))"

text \<open>\<^verbatim>\<open>random.random()\<close> and \<^verbatim>\<open>random.uniform(a, b)\<close>, which is \<^verbatim>\<open>a + (b - a) * random()\<close>.\<close>

definition random :: "state \<Rightarrow> real \<times> state" where
  "random s =
     (case rand_floats s of
        [] \<Rightarrow> (0, s)
      | u # rest \<Rightarrow> (u, s\<lparr>rand_floats := rest\<rparr>))"

definition uniform :: "real \<Rightarrow> real \<Rightarrow> state \<Rightarrow> real \<times> state" where
  "uniform a b s = (case random s of (u, s1) \<Rightarrow> (a + (b - a) * u, s1))"

section \<open>DeviceManager\<close>

definition get_device_id :: "state \<Rightarrow> string option" where
  "get_device_id s = (case active_device s of None \<Rightarrow> None | Some d \<Rightarrow> Some (fst d))"

text \<open>\<^verbatim>\<open>if not device_id\<close>: no active device, or an empty identifier.\<close>

definition no_device :: "state \<Rightarrow> bool" where
  "no_device s = (case get_device_id s of None \<Rightarrow> True | Some i \<Rightarrow> i = [])"

definition switch_interval_of :: "config \<Rightarrow> real" where
  "switch_interval_of cfg = (case switch_interval cfg of None \<Rightarrow> 30 | Some v \<Rightarrow> v)"

definition should_switch_device :: "config \<Rightarrow> state \<Rightarrow> bool" where
  "should_switch_device cfg s =
     (if length (devices s) \<le> 1 then False
      else now s - last_device_switch_time s \<ge> switch_interval_of cfg)"

fun device_index :: "string \<Rightarrow> (string \<times> string) list \<Rightarrow> nat option" where
  "device_index i [] = None"
| "device_index i (d # ds) =
     (if fst d = i then Some 0 else map_option Suc (device_index i ds))"

text \<open>
  \<^verbatim>\<open>DeviceManager.switch_device\<close>. With several devices and no active one, reading
  \<^verbatim>\<open>self.active_device[0]\<close> raises.
\<close>

definition switch_device :: "state \<Rightarrow> (error + unit) \<times> state" where
  "switch_device s =
     (if length (devices s) \<le> 1 then (Inr (), s)
      else case active_device s of
        None \<Rightarrow> (Inl TypeError, s)
      | Some a \<Rightarrow>
          let current_index = (case device_index (fst a) (devices s) of None \<Rightarrow> 0 | Some i \<Rightarrow> i);
              next_index = (current_index + 1) mod length (devices s);
              d = devices s ! next_index
          in (Inr (), emit (SwitchDevice (fst d))
                        (s\<lparr>active_device := Some d, last_device_switch_time := now s\<rparr>)))"

section \<open>Screen capture and input\<close>

text \<open>
  \<^verbatim>\<open>ImageProcessor.get_screen\<close>: without a device nothing is tried; otherwise the next
  capture of the script, and every failure of it, is \<^verbatim>\<open>None\<close>.
\<close>

definition get_screen :: "state \<Rightarrow> frame option \<times> state" where
  "get_screen s =
     (if no_device s then (None, s)
      else case captures s of
        [] \<Rightarrow> (None, emit (Capture False) s)
      | (d, r) # rest \<Rightarrow>
          (r, (emit (Capture (r \<noteq> None)) (s\<lparr>captures := rest\<rparr>))\<lparr>now := now s + d\<rparr>))"

text \<open>
  \<^verbatim>\<open>InputController.click\<close>: without a device nothing is sent; otherwise the tap is sent
  and succeeds or fails as the script says. The field \<^verbatim>\<open>last_click\<close> is written and never
  read, and is left out.
\<close>

definition click :: "int \<Rightarrow> int \<Rightarrow> state \<Rightarrow> bool \<times> state" where
  "click x y s =
     (if no_device s then (False, s)
      else case taps s of
        [] \<Rightarrow> (False, emit (Tap x y False) s)
      | (d, ok) # rest \<Rightarrow>
          (ok, (emit (Tap x y ok) (s\<lparr>taps := rest\<rparr>))\<lparr>now := now s + d\<rparr>))"

text \<open>\<^verbatim>\<open>InputController.random_click\<close>, with \<^verbatim>\<open>offset_range = 10\<close>.\<close>

definition random_click :: "int \<Rightarrow> int \<Rightarrow> string option \<Rightarrow> state \<Rightarrow> bool \<times> state" where
  "random_click x y template_name s =
     (case randint (- 10) 10 s of (offset_x, s1) \<Rightarrow>
      case randint (- 10) 10 s1 of (offset_y, s2) \<Rightarrow>
        let target_x = x + offset_x; target_y = y + offset_y
        in click target_x target_y (emit (RandomClick template_name target_x target_y) s2))"

text \<open>\<^verbatim>\<open>InputController.random_click_area\<close>\<close>

definition random_click_area :: "int \<Rightarrow> int \<Rightarrow> int \<Rightarrow> int \<Rightarrow> state \<Rightarrow> bool \<times> state" where
  "random_click_area x1 y1 x2 y2 s =
     (case randint x1 x2 s of (random_x, s1) \<Rightarrow>
      case randint y1 y2 s1 of (random_y, s2) \<Rightarrow> click random_x random_y s2)"

text \<open>
  \<^verbatim>\<open>self.config.get(f"templates.{template_name}.delay_after", [0.5, 1.0])\<close>, or the default
  range when no name is given. \<^verbatim>\<open>ConfigManager.get\<close> splits the key at every dot and walks
  down the configuration, so a name with a dot in it does not reach the entry of its template:
  the walk ends in a missing key, or in a value that is not a dictionary, and yields the default.
\<close>

definition delay_range_of :: "config \<Rightarrow> string \<Rightarrow> real \<times> real" where
  "delay_range_of cfg template_name =
     (if template_name = [] \<or> CHR ''.'' \<in> set template_name then (0.5, 1.0)
      else case templates cfg template_name of
        None \<Rightarrow> (0.5, 1.0)
      | Some tc \<Rightarrow> (case cfg_delay_after tc of None \<Rightarrow> (0.5, 1.0) | Some r \<Rightarrow> r))"

text \<open>\<^verbatim>\<open>InputController.random_delay\<close>; \<^verbatim>\<open>time.sleep\<close> raises on a negative delay.\<close>

definition random_delay :: "config \<Rightarrow> string \<Rightarrow> state \<Rightarrow> (error + unit) \<times> state" where
  "random_delay cfg template_name s =
     (case delay_range_of cfg template_name of (lo, hi) \<Rightarrow>
      case uniform lo hi s of (delay, s1) \<Rightarrow>
        if delay < 0 then (Inl ValueError, s1) else (Inr (), sleep delay s1))"

section \<open>AutomationModule\<close>

text \<open>
  \<^verbatim>\<open>AutomationModule.click_button\<close>. The module that defines it does not import
  \<^verbatim>\<open>random\<close>, so the special delay raises (after the tap, and after
  \<^verbatim>\<open>last_button_clicked\<close> was written); \<^verbatim>\<open>min\<close> of an empty list raises before that.
\<close>

definition click_button :: "config \<Rightarrow> string \<Rightarrow> int \<Rightarrow> int \<Rightarrow> state \<Rightarrow> (error + bool) \<times> state" where
  "click_button cfg button_name x y s =
     (case random_click x y (Some button_name) s of (clicked, s1) \<Rightarrow>
        if clicked then
          (let s2 = s1\<lparr>last_button_clicked := Some button_name\<rparr> in
           case special_buttons cfg button_name of
             Some special_config \<Rightarrow>
               (case special_config of
                  Some delay_range \<Rightarrow>
                    (Inl (if delay_range = [] then ValueError else NameError), s2)
                | None \<Rightarrow> (Inr True, s2))
           | None \<Rightarrow>
               (case random_delay cfg button_name s2 of
                  (Inl e, s3) \<Rightarrow> (Inl e, s3)
                | (Inr u, s3) \<Rightarrow> (Inr True, s3)))
        else (Inr False, s1))"

section \<open>YuhunModule\<close>

text \<open>
  A call of \<^verbatim>\<open>run_once\<close> makes passes through the body of its loop; each pass captures one
  frame and decides on it. A pass ends in one of two ways: the function returns, or the loop
  goes on.
\<close>

datatype flow = Return bool | Continue

text \<open>\<^verbatim>\<open>self.config.get("device_management.max_single_run_time", 5)\<close>\<close>

definition max_run_time :: "config \<Rightarrow> real" where
  "max_run_time cfg = (case max_single_run_time cfg of None \<Rightarrow> 5 | Some v \<Rightarrow> v)"

definition set_pause :: "state \<Rightarrow> state" where
  "set_pause s = (emit SetPause s)\<lparr>pause_event := True\<rparr>"

definition set_stop :: "state \<Rightarrow> state" where
  "set_stop s = (emit SetStop s)\<lparr>stop_event := True\<rparr>"

text \<open>
  \<^verbatim>\<open>if self.device_manager.should_switch_device(): self.device_manager.switch_device()\<close>
\<close>

definition maybe_switch_device :: "config \<Rightarrow> state \<Rightarrow> (error + unit) \<times> state" where
  "maybe_switch_device cfg s =
     (if should_switch_device cfg s then switch_device s else (Inr (), s))"

text \<open>
  Lines 118 to 143 of \<^verbatim>\<open>YuhunModule.run_once\<close>: the tap on the chosen button. An exception
  is caught by the handler of the loop, which sleeps one second; a tap that fails falls through
  to the idle sleep.
\<close>

definition yuhun_dispatch :: "config \<Rightarrow> real \<Rightarrow> button \<Rightarrow> state \<Rightarrow> flow \<times> state" where
  "yuhun_dispatch cfg start_time b s =
     (let button_name = name b; button_pos = position b in
      if button_name = ''button10'' then
        (case click_button cfg button_name (fst button_pos) (snd button_pos) s of
           (Inl e, s1) \<Rightarrow> (Continue, sleep 1 s1)
         | (Inr clicked, s1) \<Rightarrow>
             if clicked
             then (Return True,
                   s1\<lparr>last_button10_click_time := now s1, check_notupo_after_button10 := True\<rparr>)
             else (Continue, sleep 0.2 s1))
      else if button_name = ''button7'' then
        (case uniform 0.5 1.5 s of (wait_time, s1) \<Rightarrow>
           if now s1 - start_time + wait_time > max_run_time cfg then (Return False, s1)
           else
             (case click_button cfg button_name (fst button_pos) (snd button_pos)
                     (sleep wait_time s1) of
                (Inl e, s2) \<Rightarrow> (Continue, sleep 1 s2)
              | (Inr clicked, s2) \<Rightarrow>
                  if clicked then (Return True, s2) else (Continue, sleep 0.2 s2)))
      else
        (case click_button cfg button_name (fst button_pos) (snd button_pos) s of
           (Inl e, s1) \<Rightarrow> (Continue, sleep 1 s1)
         | (Inr clicked, s1) \<Rightarrow>
             if clicked then (Return True, s1) else (Continue, sleep 0.2 s1)))"

text \<open>
  Lines 99 to 116: detection of the candidate list, and the rule that button5 follows button4.
\<close>

definition yuhun_buttons :: "config \<Rightarrow> real \<Rightarrow> frame \<Rightarrow> state \<Rightarrow> flow \<times> state" where
  "yuhun_buttons cfg start_time screen s =
     (let s1 = emit (DetectAll (template_sets cfg)) s in
      case detect_all_buttons cfg screen (template_sets cfg) of
        [] \<Rightarrow> (Continue, sleep 0.2 s1)
      | b # rest \<Rightarrow>
          if name b = ''button5'' \<and> last_button_clicked s1 \<noteq> Some ''button4'' then
            (let s2 = emit (Find ''button4'') s1 in
             case find_template cfg ''button4'' screen of
               Some button4_pos \<Rightarrow>
                 (case click_button cfg ''button4'' (fst button4_pos) (snd button4_pos) s2 of
                    (Inl e, s3) \<Rightarrow> (Continue, sleep 1 s3)
                  | (Inr clicked, s3) \<Rightarrow> (Continue, s3))
             | None \<Rightarrow> yuhun_dispatch cfg start_time b s2)
          else yuhun_dispatch cfg start_time b s1)"

text \<open>Lines 85 to 97: the check for notupo after button10 was clicked.\<close>

definition yuhun_gate :: "config \<Rightarrow> real \<Rightarrow> frame \<Rightarrow> state \<Rightarrow> flow \<times> state" where
  "yuhun_gate cfg start_time screen s =
     (if check_notupo_after_button10 s then
        (let s1 = emit (Find ''notupo'') s in
         case find_template cfg ''notupo'' screen of
           Some notupo_pos \<Rightarrow> (Return False, set_pause s1)
         | None \<Rightarrow>
             if now s1 - last_button10_click_time s1 > 1
             then yuhun_buttons cfg start_time screen
                    (s1\<lparr>check_notupo_after_button10 := False\<rparr>)
             else (Continue, sleep 0.1 s1))
      else yuhun_buttons cfg start_time screen s)"

text \<open>Lines 78 to 83: the check for lose, on the frame just captured.\<close>

definition yuhun_frame :: "config \<Rightarrow> real \<Rightarrow> frame \<Rightarrow> state \<Rightarrow> flow \<times> state" where
  "yuhun_frame cfg start_time screen s =
     (let s1 = emit (Find ''lose'') s in
      case find_template cfg ''lose'' screen of
        Some lose_pos \<Rightarrow> (Return False, set_pause s1)
      | None \<Rightarrow> yuhun_gate cfg start_time screen s1)"

text \<open>Lines 61 to 76 and the handler: the body of the loop, from the pause check on.\<close>

definition yuhun_body :: "config \<Rightarrow> real \<Rightarrow> state \<Rightarrow> flow \<times> state" where
  "yuhun_body cfg start_time s =
     (if pause_event s then (Return False, sleep 1 s)
      else case maybe_switch_device cfg s of
        (Inl e, s1) \<Rightarrow> (Continue, sleep 1 s1)
      | (Inr u, s1) \<Rightarrow>
          (case get_screen s1 of
             (None, s2) \<Rightarrow> (Continue, sleep 1 s2)
           | (Some screen, s2) \<Rightarrow> yuhun_frame cfg start_time screen s2))"

text \<open>
  The loop of \<^verbatim>\<open>YuhunModule.run_once\<close>. Nothing in the code bounds the number of passes,
  so the model counts them: \<open>None\<close> is a call that has not returned after \<open>fuel\<close> passes.
\<close>

fun yuhun_loop :: "nat \<Rightarrow> config \<Rightarrow> real \<Rightarrow> state \<Rightarrow> (bool \<times> state) option" where
  "yuhun_loop 0 cfg start_time s = None"
| "yuhun_loop (Suc fuel) cfg start_time s =
     (if stop_event s then Some (False, s)
      else if now s - start_time > max_run_time cfg then Some (False, s)
      else case yuhun_body cfg start_time s of
        (Return r, s1) \<Rightarrow> Some (r, s1)
      | (Continue, s1) \<Rightarrow> yuhun_loop fuel cfg start_time s1)"

definition yuhun_run_once :: "nat \<Rightarrow> config \<Rightarrow> state \<Rightarrow> (bool \<times> state) option" where
  "yuhun_run_once fuel cfg s = yuhun_loop fuel cfg (now s) s"

section \<open>BaiguiModule\<close>

text \<open>Lines 86 to 124 of \<^verbatim>\<open>BaiguiModule.run_once\<close>: the tap on the chosen button.\<close>

definition baigui_dispatch :: "config \<Rightarrow> real \<Rightarrow> button \<Rightarrow> state \<Rightarrow> flow \<times> state" where
  "baigui_dispatch cfg start_time b s =
     (let button_name = name b; button_pos = position b in
      case click_button cfg button_name (fst button_pos) (snd button_pos) s of
        (Inl e, s1) \<Rightarrow> (Continue, sleep 1 s1)
      | (Inr clicked, s1) \<Rightarrow>
          if \<not> clicked then (Continue, sleep 0.2 s1)
          else if button_name = ''button1'' then (Return True, s1)
          else if button_name = ''button2'' then
            (case uniform 1 2 s1 of (wait_time, s2) \<Rightarrow>
               if now s2 - start_time + wait_time > max_run_time cfg then (Return True, s2)
               else
                 (case get_screen (sleep wait_time s2) of
                    (None, s3) \<Rightarrow> (Return True, s3)
                  | (Some screen, s3) \<Rightarrow>
                      (let s4 = emit (Find ''button3'') s3 in
                       case find_template cfg ''button3'' screen of
                         None \<Rightarrow> (Return True, s4)
                       | Some button3_pos \<Rightarrow>
                           (case click_button cfg ''button3'' (fst button3_pos)
                                   (snd button3_pos) s4 of
                              (Inl e, s5) \<Rightarrow> (Continue, sleep 1 s5)
                            | (Inr c, s5) \<Rightarrow> (Return True, s5)))))
          else (Return True, s1))"

text \<open>Lines 126 to 145: the exploratory tap when no button was found.\<close>

definition baigui_idle :: "config \<Rightarrow> real \<Rightarrow> frame \<Rightarrow> state \<Rightarrow> flow \<times> state" where
  "baigui_idle cfg start_time screen s =
     (if now s - start_time < max_run_time cfg * 0.8 then
        (let center_x = int (frame_width screen div 2);
             center_y = int (frame_height screen div 2)
         in case random s of (u, s1) \<Rightarrow>
              if u < 0.2 then
                (case random_click_area (center_x - 100) (center_y - 100)
                        (center_x + 100) (center_y + 100) s1 of
                   (clicked, s2) \<Rightarrow>
                     if clicked then (Return True, s2) else (Continue, sleep 0.2 s2))
              else (Continue, sleep 0.2 s1))
      else (Continue, sleep 0.2 s))"

text \<open>
  The body of \<^verbatim>\<open>BaiguiModule.run_once\<close>. It has no loop: \<open>Continue\<close> is the end of the
  \<^verbatim>\<open>try\<close> statement, after which the function returns \<^verbatim>\<open>False\<close>.
\<close>

definition baigui_body :: "config \<Rightarrow> real \<Rightarrow> state \<Rightarrow> flow \<times> state" where
  "baigui_body cfg start_time s =
     (if pause_event s then (Return False, sleep 1 s)
      else case maybe_switch_device cfg s of
        (Inl e, s1) \<Rightarrow> (Continue, sleep 1 s1)
      | (Inr u, s1) \<Rightarrow>
          (case get_screen s1 of
             (None, s2) \<Rightarrow>
               (let s3 = s2\<lparr>consecutive_errors := consecutive_errors s2 + 1\<rparr> in
                if consecutive_errors s3 > 5 then (Return False, set_pause s3)
                else (Return False, s3))
           | (Some screen, s2) \<Rightarrow>
               (let s3 = s2\<lparr>consecutive_errors := 0\<rparr> in
                if now s3 - start_time > max_run_time cfg then (Return False, s3)
                else
                  (let s4 = emit (DetectAll (template_sets cfg)) s3 in
                   case detect_all_buttons cfg screen (template_sets cfg) of
                     [] \<Rightarrow> baigui_idle cfg start_time screen s4
                   | b # rest \<Rightarrow> baigui_dispatch cfg start_time b s4))))"

definition baigui_run_once :: "config \<Rightarrow> state \<Rightarrow> bool \<times> state" where
  "baigui_run_once cfg s =
     (case baigui_body cfg (now s) s of
        (Return r, s1) \<Rightarrow> (r, s1)
      | (Continue, s1) \<Rightarrow> (False, s1))"

section \<open>DeviceThread\<close>

text \<open>The module a thread drives; \<^verbatim>\<open>run_once\<close> is the method of its class.\<close>

datatype automation_module = YuhunModule | BaiguiModule

definition run_once :: "automation_module \<Rightarrow> nat \<Rightarrow> config \<Rightarrow> state \<Rightarrow> (bool \<times> state) option" where
  "run_once m fuel cfg s =
     (case m of
        YuhunModule \<Rightarrow> yuhun_run_once fuel cfg s
      | BaiguiModule \<Rightarrow> Some (baigui_run_once cfg s))"

text \<open>
  The loop of \<^verbatim>\<open>DeviceThread.run\<close>; \<open>end_time\<close> is in seconds on the clock of the state.
  Neither module's \<^verbatim>\<open>run_once\<close> lets an exception escape. \<open>fuel\<close> bounds the passes of this
  loop, \<open>tick_fuel\<close> those of the loop inside a call of \<^verbatim>\<open>run_once\<close>.
\<close>

fun thread_loop ::
  "nat \<Rightarrow> automation_module \<Rightarrow> nat \<Rightarrow> config \<Rightarrow> real \<Rightarrow> state \<Rightarrow> state option" where
  "thread_loop 0 m tick_fuel cfg end_time s = None"
| "thread_loop (Suc fuel) m tick_fuel cfg end_time s =
     (if stop_event s then Some s
      else if now s \<ge> end_time then Some (set_stop s)
      else if pause_event s then thread_loop fuel m tick_fuel cfg end_time (sleep 1 s)
      else case run_once m tick_fuel cfg s of
        None \<Rightarrow> None
      | Some (r, s1) \<Rightarrow> thread_loop fuel m tick_fuel cfg end_time s1)"

text \<open>
  \<^verbatim>\<open>DeviceThread.run\<close> for a module whose \<^verbatim>\<open>initialize\<close> succeeds (both modules' do), with
  \<open>run_duration\<close> in minutes.
\<close>

definition device_thread_run ::
  "nat \<Rightarrow> automation_module \<Rightarrow> nat \<Rightarrow> config \<Rightarrow> int \<Rightarrow> state \<Rightarrow> state option" where
  "device_thread_run fuel m tick_fuel cfg run_duration s =
     thread_loop fuel m tick_fuel cfg (now s + 60 * real_of_int run_duration) s"

section \<open>Observing a run\<close>

text \<open>The events logged between two states of a run, oldest first.\<close>

definition events_since :: "state \<Rightarrow> state \<Rightarrow> event list" where
  "events_since s s' = map snd (drop (length (log s)) (log s'))"

text \<open>
  What no step after the device switch touches: the stop signal, the device list and the active
  device, the failure counter; and the log only grows.
\<close>

definition engine_step :: "state \<Rightarrow> state \<Rightarrow> bool" where
  "engine_step s s' \<longleftrightarrow>
     stop_event s' = stop_event s \<and> devices s' = devices s
   \<and> active_device s' = active_device s
   \<and> last_device_switch_time s' = last_device_switch_time s
   \<and> consecutive_errors s' = consecutive_errors s
   \<and> (\<exists>evs. log s' = log s @ evs)"

text \<open>A session on one emulator, at its start: nothing clicked, nothing scripted.\<close>

definition start_state :: state where
  "start_state =
     \<lparr>now = 0, stop_event = False, pause_event = False,
      devices = [(''127.0.0.1:5555'', ''emulator'')],
      active_device = Some (''127.0.0.1:5555'', ''emulator''),
      last_device_switch_time = 0,
      last_button_clicked = None,
      check_notupo_after_button10 = False,
      last_button10_click_time = 0,
      consecutive_errors = 0,
      captures = [], taps = [], rand_ints = [], rand_floats = [],
      log = []\<rparr>"

text \<open>A frame that shows the listed controls, each with score 0.95 at the given place.\<close>

definition showing :: "(string \<times> int \<times> int) list \<Rightarrow> frame" where
  "showing xs =
     \<lparr>best_match = (\<lambda>n. case map_of xs n of None \<Rightarrow> (0.1, 0, 0) | Some (x, y) \<Rightarrow> (0.95, x, y)),
      frame_height = 720, frame_width = 1280\<rparr>"

text \<open>
  A catalogue for the Yuhun module: button10 before button5 before button4 before the others;
  a lower threshold for notupo; default budget and switch interval.
\<close>

definition yuhun_config :: config where
  "yuhun_config =
     \<lparr>templates =
        [''button10'' \<mapsto> \<lparr>cfg_threshold = None, cfg_priority = Some 1, cfg_delay_after = None\<rparr>,
         ''button5'' \<mapsto> \<lparr>cfg_threshold = None, cfg_priority = Some 2, cfg_delay_after = None\<rparr>,
         ''button4'' \<mapsto> \<lparr>cfg_threshold = None, cfg_priority = Some 3, cfg_delay_after = None\<rparr>,
         ''button1'' \<mapsto> \<lparr>cfg_threshold = None, cfg_priority = Some 5, cfg_delay_after = None\<rparr>,
         ''notupo'' \<mapsto> \<lparr>cfg_threshold = Some 0.5, cfg_priority = None, cfg_delay_after = None\<rparr>],
      template_files =
        [''lose'' \<mapsto> (40, 60), ''notupo'' \<mapsto> (40, 60), ''button1'' \<mapsto> (40, 60),
         ''button4'' \<mapsto> (40, 60), ''button5'' \<mapsto> (40, 60), ''button7'' \<mapsto> (40, 60),
         ''button10'' \<mapsto> (40, 60)],
      template_sets = [''button1'', ''button4'', ''button5'', ''button7'', ''button10''],
      special_buttons = Map.empty,
      max_single_run_time = None,
      switch_interval = None\<rparr>"

text \<open>
  Two emulators, the first active, switched to 29 seconds ago; the screen shows button10. The
  second state is the first after one call of \<^verbatim>\<open>run_once\<close>: button10 clicked, the notupo
  check armed.
\<close>

definition two_devices :: state where
  "two_devices =
     start_state\<lparr>now := 100,
       devices := [(''127.0.0.1:5555'', ''first''), (''127.0.0.1:5556'', ''second'')],
       active_device := Some (''127.0.0.1:5555'', ''first''),
       last_device_switch_time := 71,
       captures := [(0.1, Some (showing [(''button10'', 600, 500)])), (0.1, Some (showing []))],
       taps := [(0.1, True)], rand_floats := [0.8]\<rparr>"

definition two_devices_armed :: state where
  "two_devices_armed =
     two_devices\<lparr>now := 101.1,
       last_button_clicked := Some ''button10'',
       check_notupo_after_button10 := True,
       last_button10_click_time := 101.1,
       captures := [(0.1, Some (showing []))],
       taps := [], rand_floats := [],
       log := [(100, Capture True), (100.1, Find ''lose''),
               (100.1, DetectAll [''button1'', ''button4'', ''button5'', ''button7'', ''button10'']),
               (100.1, RandomClick (Some ''button10'') 620 510),
               (100.1, Tap 620 510 True), (100.2, Sleep 0.9)]\<rparr>"

text \<open>
  No check for notupo, no detection of the candidate list and no tap is logged before the first
  check for lose.
\<close>

fun lose_first :: "event list \<Rightarrow> bool" where
  "lose_first [] = True"
| "lose_first (Find n # es) = (n = ''lose'')"
| "lose_first (DetectAll ns # es) = False"
| "lose_first (RandomClick n x y # es) = False"
| "lose_first (Tap x y ok # es) = False"
| "lose_first (e # es) = lose_first es"

text \<open>A screen that shows lose and button1 at once, on a device that would accept a tap.\<close>

definition lose_state :: state where
  "lose_state =
     start_state\<lparr>captures := [(0.1, Some (showing [(''lose'', 10, 10), (''button1'', 300, 300)]))],
       taps := [(0.1, True)]\<rparr>"

text \<open>
  Button10 was just clicked. The next screen shows button1 and no notupo, the one after shows
  button1 and notupo; the device would accept a tap.
\<close>

definition gate_state :: state where
  "gate_state =
     start_state\<lparr>now := 10,
       last_button_clicked := Some ''button10'',
       check_notupo_after_button10 := True,
       last_button10_click_time := 10,
       captures := [(0.1, Some (showing [(''button1'', 300, 300)])),
                    (0.1, Some (showing [(''button1'', 300, 300), (''notupo'', 50, 50)]))],
       taps := [(0.1, True)]\<rparr>"

text \<open>The events of a tap: the aim that \<^verbatim>\<open>random_click\<close> logs, and the tap itself.\<close>

fun is_click :: "event \<Rightarrow> bool" where
  "is_click (RandomClick n x y) = True"
| "is_click (Tap x y ok) = True"
| "is_click e = False"

text \<open>A screen that shows button5 and button4, when nothing was clicked before.\<close>

definition sequence_state :: state where
  "sequence_state =
     start_state\<lparr>captures :=
         [(0.1, Some (showing [(''button5'', 500, 400), (''button4'', 200, 300)]))],
       taps := [(0.1, True)], rand_ints := [13, 7], rand_floats := [0.5]\<rparr>"

text \<open>A capture that blocks for six seconds before it yields a screen showing button1.\<close>

definition slow_capture_state :: state where
  "slow_capture_state =
     start_state\<lparr>captures := [(6, Some (showing [(''button1'', 300, 300)]))],
       taps := [(0.1, True)], rand_ints := [13, 7], rand_floats := [0.5]\<rparr>"

text \<open>
  A session whose first capture blocks for 58.5 seconds and fails, as does every later one, and
  the state in which its thread ends when it runs for one minute.
\<close>

definition deadline_state :: state where
  "deadline_state = start_state\<lparr>captures := [(58.5, None)]\<rparr>"

definition deadline_result :: state where
  "deadline_result =
     deadline_state\<lparr>now := 65.5, stop_event := True, captures := [],
       log := [(0, Capture False), (58.5, Sleep 1), (59.5, Capture False), (59.5, Sleep 1),
               (60.5, Capture False), (60.5, Sleep 1), (61.5, Capture False), (61.5, Sleep 1),
               (62.5, Capture False), (62.5, Sleep 1), (63.5, Capture False), (63.5, Sleep 1),
               (64.5, Capture False), (64.5, Sleep 1), (65.5, SetStop)]\<rparr>"

text \<open>
  A catalogue for the Baigui module, and a session of it: the first screen shows button2, the
  capture made after the click on button2 fails, and so do the captures of the next five calls.
  The last state is the one in which the thread ends when its end time is 3 seconds.
\<close>

definition baigui_config :: config where
  "baigui_config =
     \<lparr>templates = Map.empty,
      template_files =
        [''button1'' \<mapsto> (40, 60), ''button2'' \<mapsto> (40, 60), ''button3'' \<mapsto> (40, 60)],
      template_sets = [''button1'', ''button2'', ''button3''],
      special_buttons = Map.empty,
      max_single_run_time = None,
      switch_interval = None\<rparr>"

definition second_capture_state :: state where
  "second_capture_state =
     start_state\<lparr>captures := [(0.1, Some (showing [(''button2'', 300, 300)])), (0.1, None),
                     (0.1, None), (0.1, None), (0.1, None), (0.1, None), (0.1, None)],
       taps := [(0.1, True)], rand_floats := [0.5, 0.5]\<rparr>"

definition second_capture_result :: state where
  "second_capture_result =
     second_capture_state\<lparr>now := 3.05, stop_event := True,
       last_button_clicked := Some ''button2'', consecutive_errors := 5,
       captures := [], taps := [], rand_floats := [],
       log := [(0, Capture True), (0.1, DetectAll [''button1'', ''button2'', ''button3'']),
               (0.1, RandomClick (Some ''button2'') 320 310), (0.1, Tap 320 310 True),
               (0.2, Sleep 0.75), (0.95, Sleep 1.5), (2.45, Capture False),
               (2.55, Capture False), (2.65, Capture False), (2.75, Capture False),
               (2.85, Capture False), (2.95, Capture False), (3.05, SetStop)]\<rparr>"

section \<open>AutoClicker, the earlier script\<close>

text \<open>Python's \<^verbatim>\<open>int\<close> of a float: truncation towards zero.\<close>

definition py_int :: "real \<Rightarrow> int" where
  "py_int r = (if r \<ge> 0 then \<lfloor>r\<rfloor> else \<lceil>r\<rceil>)"

text \<open>
  The place \<^verbatim>\<open>AutoClicker.random_click\<close> of \<^verbatim>\<open>auto_click.py\<close> taps, for the radius
  \<open>offset\<close> it drew with \<^verbatim>\<open>random.randint(click_min, click_max)\<close> and the angle it drew
  with \<^verbatim>\<open>random.uniform(0, 2 * np.pi)\<close>.
\<close>

definition auto_clicker_target :: "int \<Rightarrow> int \<Rightarrow> int \<Rightarrow> real \<Rightarrow> int \<times> int" where
  "auto_clicker_target x y offset angle =
     (let offset_x = py_int (real_of_int offset * cos angle);
          offset_y = py_int (real_of_int offset * sin angle)
      in (x + offset_x, y + offset_y))"

text \<open>A device that accepts the tap, and the two draws \<^verbatim>\<open>random_click\<close> will make.\<close>

definition jitter_state :: "nat \<Rightarrow> nat \<Rightarrow> state" where
  "jitter_state k1 k2 = start_state\<lparr>taps := [(0.1, True)], rand_ints := [k1, k2]\<rparr>"

section \<open>Candidate order\<close>

lemma collect_buttons_names:
  "map name (collect_buttons cfg screen names) =
     filter (\<lambda>n. find_template cfg n screen \<noteq> None) names"
  by (induction names) (auto split: option.splits)

text \<open>
  C3 (as amended): the list \<^verbatim>\<open>detect_all_buttons\<close> returns is sorted by ascending
  priority; candidates of equal priority keep the order of the requested names (the catalogue
  order), whatever their scores; the result is a function of the frame and the names.
\<close>

theorem detect_all_buttons_stable_by_priority:
  "sorted (map priority (detect_all_buttons cfg screen names))
   \<and> filter (\<lambda>b. priority b = p) (detect_all_buttons cfg screen names)
       = filter (\<lambda>b. priority b = p) (collect_buttons cfg screen names)
   \<and> mset (map name (detect_all_buttons cfg screen names))
       = mset (filter (\<lambda>n. find_template cfg n screen \<noteq> None) names)"
proof -
  have "mset (sort_key priority (collect_buttons cfg screen names))
          = mset (collect_buttons cfg screen names)"
    by simp
  then have "mset (map name (sort_key priority (collect_buttons cfg screen names)))
          = mset (map name (collect_buttons cfg screen names))"
    by (metis mset_map)
  then show ?thesis
    by (simp add: detect_all_buttons_def sort_key_stable collect_buttons_names)
qed

text \<open>
  C3 (as stated) fails: with two templates of equal priority, the one requested first comes
  first although its score is lower.
\<close>

theorem detect_all_buttons_ignores_score:
  "detect_all_buttons two_button_config two_button_frame [''button1'', ''button2'']
     = [\<lparr>name = ''button1'', position = (130, 220), score = 0.85, priority = 0\<rparr>,
        \<lparr>name = ''button2'', position = (330, 420), score = 0.95, priority = 0\<rparr>]
   \<and> \<not> sorted_wrt spec_candidate_order
         (detect_all_buttons two_button_config two_button_frame [''button1'', ''button2''])"
  by (simp add: detect_all_buttons_def find_template_def load_template_def threshold_of_def
      priority_of_def two_button_config_def two_button_frame_def spec_candidate_order_def)

section \<open>What a step leaves alone\<close>

lemma engine_step_refl: "engine_step s s"
  by (simp add: engine_step_def)

lemma engine_step_trans: "engine_step s s1 \<Longrightarrow> engine_step s1 s2 \<Longrightarrow> engine_step s s2"
  by (auto simp: engine_step_def)

lemma engine_step_randint: "randint a b s = (v, s1) \<Longrightarrow> engine_step s s1"
  by (auto simp: randint_def engine_step_def split: list.splits)

lemma engine_step_random: "random s = (v, s1) \<Longrightarrow> engine_step s s1"
  by (auto simp: random_def engine_step_def split: list.splits)

lemma engine_step_uniform: "uniform a b s = (v, s1) \<Longrightarrow> engine_step s s1"
  by (auto simp: uniform_def split: prod.splits dest: engine_step_random)

lemma engine_step_click: "click x y s = (ok, s1) \<Longrightarrow> engine_step s s1"
  by (auto simp: click_def engine_step_def emit_def split: list.splits if_splits)

lemma engine_step_get_screen: "get_screen s = (r, s1) \<Longrightarrow> engine_step s s1"
  by (auto simp: get_screen_def engine_step_def emit_def split: list.splits if_splits)

lemma engine_step_random_click: "random_click x y n s = (ok, s1) \<Longrightarrow> engine_step s s1"
  unfolding random_click_def Let_def
  by (auto split: prod.splits dest!: engine_step_randint engine_step_click
      simp: engine_step_def emit_def)

lemma engine_step_random_click_area:
  "random_click_area x1 y1 x2 y2 s = (ok, s1) \<Longrightarrow> engine_step s s1"
  unfolding random_click_area_def
  by (auto split: prod.splits dest!: engine_step_randint engine_step_click
      simp: engine_step_def)

lemma engine_step_random_delay: "random_delay cfg n s = (r, s1) \<Longrightarrow> engine_step s s1"
  unfolding random_delay_def
  by (auto split: prod.splits if_splits dest!: engine_step_uniform
      simp: engine_step_def emit_def sleep_def)

lemma engine_step_click_button: "click_button cfg n x y s = (r, s1) \<Longrightarrow> engine_step s s1"
  unfolding click_button_def Let_def
  by (auto split: prod.splits if_splits option.splits sum.splits
      dest!: engine_step_random_click engine_step_random_delay
      simp: engine_step_def)

lemma engine_step_yuhun_dispatch: "yuhun_dispatch cfg st b s = (f, s1) \<Longrightarrow> engine_step s s1"
  unfolding yuhun_dispatch_def Let_def
  by (auto split: prod.splits if_splits sum.splits
      dest!: engine_step_click_button engine_step_uniform
      simp: engine_step_def emit_def sleep_def)

lemma engine_step_yuhun_buttons: "yuhun_buttons cfg st screen s = (f, s1) \<Longrightarrow> engine_step s s1"
  unfolding yuhun_buttons_def Let_def
  by (auto split: prod.splits if_splits sum.splits list.splits option.splits
      dest!: engine_step_click_button engine_step_yuhun_dispatch
      simp: engine_step_def emit_def sleep_def)

lemma engine_step_yuhun_gate: "yuhun_gate cfg st screen s = (f, s1) \<Longrightarrow> engine_step s s1"
  unfolding yuhun_gate_def Let_def
  by (auto split: if_splits option.splits
      dest!: engine_step_yuhun_buttons
      simp: engine_step_def emit_def sleep_def set_pause_def)

lemma engine_step_yuhun_frame: "yuhun_frame cfg st screen s = (f, s1) \<Longrightarrow> engine_step s s1"
  unfolding yuhun_frame_def Let_def
  by (auto split: option.splits
      dest!: engine_step_yuhun_gate
      simp: engine_step_def emit_def set_pause_def)

lemma engine_step_baigui_dispatch: "baigui_dispatch cfg st b s = (f, s1) \<Longrightarrow> engine_step s s1"
  unfolding baigui_dispatch_def Let_def
  by (auto split: prod.splits if_splits sum.splits option.splits
      dest!: engine_step_click_button engine_step_uniform engine_step_get_screen
      simp: engine_step_def emit_def sleep_def)

lemma engine_step_baigui_idle: "baigui_idle cfg st screen s = (f, s1) \<Longrightarrow> engine_step s s1"
  unfolding baigui_idle_def Let_def
  by (auto split: prod.splits if_splits
      dest!: engine_step_random engine_step_random_click_area
      simp: engine_step_def emit_def sleep_def)

lemma maybe_switch_keeps:
  "maybe_switch_device cfg s = (r, s1) \<Longrightarrow>
     pause_event s1 = pause_event s \<and> stop_event s1 = stop_event s
   \<and> consecutive_errors s1 = consecutive_errors s
   \<and> check_notupo_after_button10 s1 = check_notupo_after_button10 s
   \<and> last_button10_click_time s1 = last_button10_click_time s
   \<and> last_button_clicked s1 = last_button_clicked s
   \<and> now s1 = now s \<and> captures s1 = captures s"
  by (auto simp: maybe_switch_device_def switch_device_def Let_def emit_def
      split: if_splits option.splits)

lemma get_screen_keeps:
  "get_screen s = (r, s1) \<Longrightarrow>
     pause_event s1 = pause_event s
   \<and> check_notupo_after_button10 s1 = check_notupo_after_button10 s
   \<and> last_button10_click_time s1 = last_button10_click_time s
   \<and> last_button_clicked s1 = last_button_clicked s"
  by (auto simp: get_screen_def emit_def split: if_splits list.splits)

section \<open>Recording the last button\<close>

lemma randint_last: "randint a b s = (v, s1) \<Longrightarrow> last_button_clicked s1 = last_button_clicked s"
  by (auto simp: randint_def split: list.splits)

lemma click_last: "click x y s = (ok, s1) \<Longrightarrow> last_button_clicked s1 = last_button_clicked s"
  by (auto simp: click_def emit_def split: list.splits if_splits)

lemma random_click_last:
  "random_click x y n s = (ok, s1) \<Longrightarrow> last_button_clicked s1 = last_button_clicked s"
  by (auto simp: random_click_def Let_def emit_def split: prod.splits
      dest!: randint_last click_last)

lemma random_delay_last:
  "random_delay cfg n s = (r, s1) \<Longrightarrow> last_button_clicked s1 = last_button_clicked s"
  by (auto simp: random_delay_def uniform_def random_def sleep_def emit_def
      split: prod.splits list.splits if_splits)

text \<open>
  C10: when the input controller reports that the tap failed, \<^verbatim>\<open>click_button\<close> returns
  \<^verbatim>\<open>False\<close> and \<^verbatim>\<open>last_button_clicked\<close> keeps its value; when it reports success,
  \<^verbatim>\<open>last_button_clicked\<close> is the given name and the call does not return \<^verbatim>\<open>False\<close>.
\<close>

theorem click_button_records_delivered_taps_only:
  assumes "click_button cfg button_name x y s = (r, s')"
  shows "(\<not> fst (random_click x y (Some button_name) s)
            \<longrightarrow> r = Inr False \<and> last_button_clicked s' = last_button_clicked s)
       \<and> (fst (random_click x y (Some button_name) s)
            \<longrightarrow> r \<noteq> Inr False \<and> last_button_clicked s' = Some button_name)"
proof (cases "random_click x y (Some button_name) s")
  case (Pair clicked s1)
  note rc = this
  show ?thesis
  proof (cases clicked)
    case False
    with assms rc random_click_last[OF rc] show ?thesis
      by (simp add: click_button_def)
  next
    case True
    with assms rc show ?thesis
      by (auto simp: click_button_def Let_def split: option.splits prod.splits sum.splits
          dest!: random_delay_last)
  qed
qed

text \<open>
  A tap that the device refuses after button4 was clicked, and one that it accepts.
\<close>

theorem click_button_records_delivered_taps_only_witness:
  "click_button two_button_config ''button1'' 130 220
      (start_state\<lparr>last_button_clicked := Some ''button4'', taps := [(0.1, False)]\<rparr>)
     = (Inr False,
        start_state\<lparr>now := 0.1, last_button_clicked := Some ''button4'', taps := [],
          log := [(0, RandomClick (Some ''button1'') 120 210), (0, Tap 120 210 False)]\<rparr>)
   \<and> last_button_clicked (snd (click_button two_button_config ''button1'' 130 220
        (start_state\<lparr>last_button_clicked := Some ''button4'', taps := [(0.1, True)]\<rparr>)))
     = Some ''button1''"
  using click_button_records_delivered_taps_only
    [of two_button_config "''button1''" 130 220
        "start_state\<lparr>last_button_clicked := Some ''button4'', taps := [(0.1, False)]\<rparr>"
        "fst (click_button two_button_config ''button1'' 130 220
          (start_state\<lparr>last_button_clicked := Some ''button4'', taps := [(0.1, False)]\<rparr>))"
        "snd (click_button two_button_config ''button1'' 130 220
          (start_state\<lparr>last_button_clicked := Some ''button4'', taps := [(0.1, False)]\<rparr>))"]
    click_button_records_delivered_taps_only
    [of two_button_config "''button1''" 130 220
        "start_state\<lparr>last_button_clicked := Some ''button4'', taps := [(0.1, True)]\<rparr>"
        "fst (click_button two_button_config ''button1'' 130 220
          (start_state\<lparr>last_button_clicked := Some ''button4'', taps := [(0.1, True)]\<rparr>))"
        "snd (click_button two_button_config ''button1'' 130 220
          (start_state\<lparr>last_button_clicked := Some ''button4'', taps := [(0.1, True)]\<rparr>))"]
  by (simp add: click_button_def random_click_def randint_def click_def no_device_def
      get_device_id_def emit_def start_state_def two_button_config_def)

section \<open>Capture failures in the Baigui module\<close>

text \<open>
  C8 (as amended): in a call of \<^verbatim>\<open>BaiguiModule.run_once\<close> that reaches the capture which
  opens it, a failure of that capture adds one to the counter and the call returns at once; the
  pause signal is set exactly when the counter has passed five, with nothing else done after
  the capture, the shared stop signal is untouched, and the next call only sleeps; a success of
  that capture leaves the counter at zero.
\<close>

theorem baigui_capture_failures_escalate:
  assumes "\<not> pause_event s"
    and "maybe_switch_device cfg s = (Inr u, s1)"
    and "get_screen s1 = (r, s2)"
    and "baigui_run_once cfg s = (res, s')"
  shows "(r = None \<longrightarrow>
            res = False
          \<and> consecutive_errors s' = consecutive_errors s + 1
          \<and> (pause_event s' \<longleftrightarrow> consecutive_errors s + 1 > 5)
          \<and> events_since s2 s' = (if consecutive_errors s + 1 > 5 then [SetPause] else [])
          \<and> stop_event s' = stop_event s
          \<and> (pause_event s' \<longrightarrow> baigui_run_once cfg s' = (False, sleep 1 s')))
       \<and> (r \<noteq> None \<longrightarrow> consecutive_errors s' = 0)"
proof -
  have c1: "consecutive_errors s1 = consecutive_errors s" "pause_event s1 = pause_event s"
     "stop_event s1 = stop_event s"
    using maybe_switch_keeps[OF assms(2)] by simp_all
  have e2: "engine_step s1 s2" by (rule engine_step_get_screen[OF assms(3)])
  have p2: "pause_event s2 = pause_event s" using get_screen_keeps[OF assms(3)] c1 by simp
  have c2: "consecutive_errors s2 = consecutive_errors s" "stop_event s2 = stop_event s"
    using e2 c1 by (simp_all add: engine_step_def)
  have paused: "\<And>t. pause_event t \<Longrightarrow> baigui_run_once cfg t = (False, sleep 1 t)"
    by (simp add: baigui_run_once_def baigui_body_def)
  show ?thesis
  proof (cases r)
    case None
    with assms c2 p2 paused show ?thesis
      by (auto simp: baigui_run_once_def baigui_body_def Let_def set_pause_def emit_def
          events_since_def split: if_splits)
  next
    case (Some screen)
    have "consecutive_errors s' = 0"
      using assms Some
      by (auto simp: baigui_run_once_def baigui_body_def Let_def
          split: if_splits list.splits flow.splits prod.splits
          dest!: engine_step_baigui_dispatch engine_step_baigui_idle
          simp: engine_step_def emit_def)
    with Some show ?thesis by simp
  qed
qed

text \<open>
  The sixth failure in a row pauses the session; a frame after four failures clears the counter.
\<close>

theorem baigui_capture_failures_escalate_witness:
  "baigui_run_once two_button_config
      (start_state\<lparr>consecutive_errors := 5, captures := [(0.3, None)]\<rparr>)
     = (False,
        start_state\<lparr>now := 0.3, pause_event := True, consecutive_errors := 6,
          log := [(0, Capture False), (0.3, SetPause)]\<rparr>)
   \<and> consecutive_errors (snd (baigui_run_once two_button_config
        (start_state\<lparr>consecutive_errors := 4, captures := [(0.3, Some two_button_frame)]\<rparr>)))
     = 0"
proof -
  let ?s = "start_state\<lparr>consecutive_errors := 5, captures := [(0.3, None)]\<rparr>"
  let ?t = "start_state\<lparr>consecutive_errors := 4, captures := [(0.3, Some two_button_frame)]\<rparr>"
  have sw: "maybe_switch_device two_button_config ?s = (Inr (), ?s)"
    "maybe_switch_device two_button_config ?t = (Inr (), ?t)"
    by (simp_all add: maybe_switch_device_def should_switch_device_def start_state_def)
  have gs: "get_screen ?s = (None, snd (get_screen ?s))"
    by (simp add: get_screen_def no_device_def get_device_id_def start_state_def)
  have gt: "get_screen ?t = (Some two_button_frame, snd (get_screen ?t))"
    by (simp add: get_screen_def no_device_def get_device_id_def start_state_def)
  have np: "\<not> pause_event ?s" "\<not> pause_event ?t" by (simp_all add: start_state_def)
  have fail: "baigui_run_once two_button_config ?s
     = (False,
        start_state\<lparr>now := 0.3, pause_event := True, consecutive_errors := 6,
          log := [(0, Capture False), (0.3, SetPause)]\<rparr>)"
    by (simp add: baigui_run_once_def baigui_body_def maybe_switch_device_def
        should_switch_device_def get_screen_def no_device_def get_device_id_def
        set_pause_def emit_def start_state_def)
  from baigui_capture_failures_escalate[OF np(2) sw(2) gt, of "fst (baigui_run_once two_button_config ?t)"
      "snd (baigui_run_once two_button_config ?t)"]
  have "consecutive_errors (snd (baigui_run_once two_button_config ?t)) = 0" by simp
  moreover from baigui_capture_failures_escalate[OF np(1) sw(1) gs, of "fst (baigui_run_once two_button_config ?s)"
      "snd (baigui_run_once two_button_config ?s)"]
  have "fst (baigui_run_once two_button_config ?s) = False" by simp
  ultimately show ?thesis using fail by simp
qed

section \<open>Device switching\<close>

lemma yuhun_body_after_switch:
  assumes "\<not> pause_event s" and "maybe_switch_device cfg s = (Inr u, s1)"
  shows "\<exists>evs. log (snd (yuhun_body cfg st s)) = log s1 @ evs"
proof -
  obtain fr s2 where gs: "get_screen s1 = (fr, s2)" by (cases "get_screen s1")
  from engine_step_get_screen[OF gs] obtain e2 where l2: "log s2 = log s1 @ e2"
    by (auto simp: engine_step_def)
  show ?thesis
  proof (cases fr)
    case None
    with assms gs l2 show ?thesis by (simp add: yuhun_body_def sleep_def emit_def)
  next
    case (Some screen)
    obtain f s3 where fr: "yuhun_frame cfg st screen s2 = (f, s3)"
      by (cases "yuhun_frame cfg st screen s2")
    from engine_step_yuhun_frame[OF fr] obtain e3 where "log s3 = log s2 @ e3"
      by (auto simp: engine_step_def)
    with assms gs l2 Some fr show ?thesis by (simp add: yuhun_body_def)
  qed
qed

text \<open>
  C6 (as amended): the switch check that opens every pass of \<^verbatim>\<open>YuhunModule.run_once\<close> which
  is not paused rebinds the engine to the next device of the cyclic list, before the frame is
  captured, whenever several devices are listed and the switch interval has passed since the
  last switch. Nothing in the check looks at the notupo flag: the rebind is made in the gate
  wait as at any other time.
\<close>

theorem switch_check_ignores_gate:
  assumes "\<not> pause_event s"
    and "length (devices s) > 1"
    and "now s - last_device_switch_time s \<ge> switch_interval_of cfg"
    and "active_device s = Some a"
    and "d = devices s ! (((case device_index (fst a) (devices s) of None \<Rightarrow> 0 | Some i \<Rightarrow> i) + 1)
                            mod length (devices s))"
  shows "maybe_switch_device cfg s
           = (Inr (), emit (SwitchDevice (fst d))
                        (s\<lparr>active_device := Some d, last_device_switch_time := now s\<rparr>))
       \<and> (\<exists>rest. events_since s (snd (yuhun_body cfg st s)) = SwitchDevice (fst d) # rest)"
proof -
  have sw: "maybe_switch_device cfg s
           = (Inr (), emit (SwitchDevice (fst d))
                        (s\<lparr>active_device := Some d, last_device_switch_time := now s\<rparr>))"
    using assms
    by (simp add: maybe_switch_device_def should_switch_device_def switch_device_def Let_def)
  from yuhun_body_after_switch[OF assms(1) sw] obtain evs where
    "log (snd (yuhun_body cfg st s))
       = log (emit (SwitchDevice (fst d))
                (s\<lparr>active_device := Some d, last_device_switch_time := now s\<rparr>)) @ evs"
    by blast
  then have "events_since s (snd (yuhun_body cfg st s)) = SwitchDevice (fst d) # map snd evs"
    by (simp add: events_since_def emit_def)
  with sw show ?thesis by blast
qed

text \<open>
  The notupo check is armed and button10 was clicked this instant; the last switch is more than
  thirty seconds old, and the pass opens by switching to the second emulator.
\<close>

theorem switch_check_ignores_gate_witness:
  "check_notupo_after_button10 two_devices_armed
   \<and> now two_devices_armed - last_button10_click_time two_devices_armed = 0
   \<and> maybe_switch_device yuhun_config two_devices_armed
       = (Inr (), emit (SwitchDevice ''127.0.0.1:5556'')
            (two_devices_armed\<lparr>active_device := Some (''127.0.0.1:5556'', ''second''),
               last_device_switch_time := 101.1\<rparr>))
   \<and> hd (events_since two_devices_armed (snd (yuhun_body yuhun_config 101.1 two_devices_armed)))
       = SwitchDevice ''127.0.0.1:5556''"
proof -
  have h: "\<not> pause_event two_devices_armed" "length (devices two_devices_armed) > 1"
    "now two_devices_armed - last_device_switch_time two_devices_armed
       \<ge> switch_interval_of yuhun_config"
    "active_device two_devices_armed = Some (''127.0.0.1:5555'', ''first'')"
    by (simp_all add: two_devices_armed_def two_devices_def start_state_def
        switch_interval_of_def yuhun_config_def)
  have d: "(''127.0.0.1:5556'', ''second'')
      = devices two_devices_armed
          ! (((case device_index (fst (''127.0.0.1:5555'', ''first'')) (devices two_devices_armed)
               of None \<Rightarrow> 0 | Some i \<Rightarrow> i) + 1) mod length (devices two_devices_armed))"
    by (simp add: two_devices_armed_def two_devices_def start_state_def)
  have n: "now two_devices_armed = 101.1"
    by (simp add: two_devices_armed_def two_devices_def start_state_def)
  from switch_check_ignores_gate[OF h d, of "101.1"]
  have sw: "maybe_switch_device yuhun_config two_devices_armed
       = (Inr (), emit (SwitchDevice ''127.0.0.1:5556'')
            (two_devices_armed\<lparr>active_device := Some (''127.0.0.1:5556'', ''second''),
               last_device_switch_time := now two_devices_armed\<rparr>))"
    and ex: "\<exists>rest. events_since two_devices_armed
            (snd (yuhun_body yuhun_config 101.1 two_devices_armed))
          = SwitchDevice ''127.0.0.1:5556'' # rest"
    by simp_all
  from ex obtain rest where "events_since two_devices_armed
            (snd (yuhun_body yuhun_config 101.1 two_devices_armed))
          = SwitchDevice ''127.0.0.1:5556'' # rest" by blast
  then have hd: "hd (events_since two_devices_armed
            (snd (yuhun_body yuhun_config 101.1 two_devices_armed)))
          = SwitchDevice ''127.0.0.1:5556''" by simp
  have g: "check_notupo_after_button10 two_devices_armed"
    "now two_devices_armed - last_button10_click_time two_devices_armed = 0"
    by (simp_all add: two_devices_armed_def two_devices_def start_state_def)
  show ?thesis using sw hd g by (simp add: n)
qed

lemmas engine_defs =
  yuhun_run_once_def yuhun_body_def yuhun_frame_def yuhun_gate_def yuhun_buttons_def
  yuhun_dispatch_def click_button_def random_click_def random_delay_def delay_range_of_def
  click_def get_screen_def maybe_switch_device_def should_switch_device_def switch_device_def
  switch_interval_of_def max_run_time_def no_device_def get_device_id_def
  randint_def random_def uniform_def sleep_def emit_def set_pause_def set_stop_def
  detect_all_buttons_def find_template_def load_template_def threshold_of_def priority_of_def
  showing_def events_since_def Let_def

text \<open>
  C6 (as stated) fails: button10 is clicked 29 seconds after the last switch, and the next call,
  made with the notupo check armed and no time gone since the click, starts by switching to the
  second emulator; the notupo check of that pass reads the second emulator's screen.
\<close>

theorem yuhun_switches_device_during_gate_wait:
  "yuhun_run_once (Suc 0) yuhun_config two_devices = Some (True, two_devices_armed)
   \<and> check_notupo_after_button10 two_devices_armed
   \<and> now two_devices_armed - last_button10_click_time two_devices_armed \<le> 1
   \<and> active_device two_devices_armed = Some (''127.0.0.1:5555'', ''first'')
   \<and> fst (yuhun_body yuhun_config (now two_devices_armed) two_devices_armed) = Continue
   \<and> active_device (snd (yuhun_body yuhun_config (now two_devices_armed) two_devices_armed))
       = Some (''127.0.0.1:5556'', ''second'')
   \<and> events_since two_devices_armed
        (snd (yuhun_body yuhun_config (now two_devices_armed) two_devices_armed))
       = [SwitchDevice ''127.0.0.1:5556'', Capture True, Find ''lose'', Find ''notupo'', Sleep 0.1]"
  by (simp add: engine_defs two_devices_def two_devices_armed_def start_state_def yuhun_config_def)

section \<open>The pass of the Yuhun loop\<close>

lemma events_since_append: "log s' = log s @ evs \<Longrightarrow> events_since s s' = map snd evs"
  by (simp add: events_since_def)

lemma yuhun_frame_log:
  assumes "yuhun_frame cfg st screen s = (f, s')"
  shows "\<exists>evs. log s' = log s @ (now s, Find ''lose'') # evs"
proof (cases "find_template cfg ''lose'' screen")
  case None
  with assms have "yuhun_gate cfg st screen (emit (Find ''lose'') s) = (f, s')"
    by (simp add: yuhun_frame_def)
  from engine_step_yuhun_gate[OF this] show ?thesis
    by (auto simp: engine_step_def emit_def)
next
  case (Some a)
  with assms show ?thesis by (auto simp: yuhun_frame_def set_pause_def emit_def)
qed

lemma maybe_switch_log:
  "maybe_switch_device cfg s = (r, s1) \<Longrightarrow>
     log s1 = log s \<or> (\<exists>d. log s1 = log s @ [(now s, SwitchDevice d)])"
  by (auto simp: maybe_switch_device_def switch_device_def Let_def emit_def
      split: if_splits option.splits)

lemma get_screen_log:
  "get_screen s = (r, s1) \<Longrightarrow>
     (r = None \<and> log s1 = log s) \<or> log s1 = log s @ [(now s, Capture (r \<noteq> None))]"
  by (auto simp: get_screen_def emit_def split: if_splits list.splits)

lemma yuhun_body_lose_first: "lose_first (events_since s (snd (yuhun_body cfg st s)))"
proof (cases "pause_event s")
  case True
  then show ?thesis by (simp add: yuhun_body_def sleep_def emit_def events_since_def)
next
  case False
  obtain r s1 where sw: "maybe_switch_device cfg s = (r, s1)"
    by (cases "maybe_switch_device cfg s")
  obtain fr s2 where gs: "get_screen s1 = (fr, s2)" by (cases "get_screen s1")
  note l1 = maybe_switch_log[OF sw] and l2 = get_screen_log[OF gs]
  show ?thesis
  proof (cases r)
    case (Inl e)
    with False sw l1 show ?thesis
      by (auto simp: yuhun_body_def sleep_def emit_def events_since_def)
  next
    case (Inr u)
    show ?thesis
    proof (cases fr)
      case None
      with False sw gs Inr l1 l2 show ?thesis
        by (auto simp: yuhun_body_def sleep_def emit_def events_since_def)
    next
      case (Some screen)
      obtain f s3 where fr: "yuhun_frame cfg st screen s2 = (f, s3)"
        by (cases "yuhun_frame cfg st screen s2")
      from yuhun_frame_log[OF fr] obtain evs where
        "log s3 = log s2 @ (now s2, Find ''lose'') # evs" by blast
      with False sw gs Inr Some fr l1 l2 show ?thesis
        by (auto simp: yuhun_body_def events_since_def)
    qed
  qed
qed

text \<open>
  C1: in every pass of the loop of \<^verbatim>\<open>YuhunModule.run_once\<close> nothing is checked for notupo,
  detected or tapped before the check for lose; and when the captured frame matches lose,
  whatever else it matches, the call returns right there with the pause signal set, having
  logged the check and the signal and nothing else since the capture.
\<close>

theorem lose_check_comes_first:
  assumes "\<not> stop_event s" and "\<not> now s - st > max_run_time cfg" and "\<not> pause_event s"
    and "maybe_switch_device cfg s = (Inr u, s1)"
    and "get_screen s1 = (Some screen, s2)"
    and "find_template cfg ''lose'' screen = Some pos"
  shows "lose_first (events_since s (snd (yuhun_body cfg st s)))
       \<and> yuhun_loop (Suc fuel) cfg st s = Some (False, set_pause (emit (Find ''lose'') s2))
       \<and> pause_event (set_pause (emit (Find ''lose'') s2))
       \<and> events_since s2 (set_pause (emit (Find ''lose'') s2)) = [Find ''lose'', SetPause]"
  using assms yuhun_body_lose_first[of s cfg st]
  by (simp add: yuhun_body_def yuhun_frame_def set_pause_def emit_def events_since_def)

text \<open>
  The frame shows lose and button1: the call returns \<^verbatim>\<open>False\<close>, paused, and the tap
  script is untouched.
\<close>

theorem lose_check_comes_first_witness:
  "yuhun_run_once (Suc 0) yuhun_config lose_state
     = Some (False,
         lose_state\<lparr>now := 0.1, pause_event := True, captures := [],
           log := [(0, Capture True), (0.1, Find ''lose''), (0.1, SetPause)]\<rparr>)
   \<and> find_template yuhun_config ''button1''
         (showing [(''lose'', 10, 10), (''button1'', 300, 300)]) = Some (330, 320)"
proof -
  let ?fr = "showing [(''lose'', 10, 10), (''button1'', 300, 300)]"
  have a: "\<not> stop_event lose_state" "\<not> now lose_state - now lose_state > max_run_time yuhun_config"
    "\<not> pause_event lose_state"
    by (simp_all add: lose_state_def start_state_def max_run_time_def yuhun_config_def)
  have sw: "maybe_switch_device yuhun_config lose_state = (Inr (), lose_state)"
    by (simp add: maybe_switch_device_def should_switch_device_def lose_state_def start_state_def)
  have gs: "get_screen lose_state = (Some ?fr, snd (get_screen lose_state))"
    by (simp add: get_screen_def no_device_def get_device_id_def lose_state_def start_state_def)
  have fl: "find_template yuhun_config ''lose'' ?fr = Some (40, 30)"
    by (simp add: find_template_def load_template_def threshold_of_def showing_def yuhun_config_def)
  have fb: "find_template yuhun_config ''button1'' ?fr = Some (330, 320)"
    by (simp add: find_template_def load_template_def threshold_of_def showing_def yuhun_config_def)
  from lose_check_comes_first[OF a sw gs fl, of 0]
  have "yuhun_run_once (Suc 0) yuhun_config lose_state
     = Some (False, set_pause (emit (Find ''lose'') (snd (get_screen lose_state))))"
    by (simp add: yuhun_run_once_def)
  then show ?thesis
    using fb
    by (simp add: get_screen_def no_device_def get_device_id_def set_pause_def emit_def
        lose_state_def start_state_def)
qed

text \<open>
  C2: in a pass of the loop that captures a frame while the notupo check is armed and, at the
  reading the code takes after the check, no more than one second has gone since button10 was
  clicked, the engine checks lose and then notupo and nothing else: it sets the pause signal and
  returns when either is found, and otherwise sleeps 0.1 seconds and starts the next pass. The
  candidate list is not detected and nothing is tapped, whatever the frame shows.
\<close>

theorem gate_wait_checks_notupo_only:
  assumes "\<not> stop_event s" and "\<not> now s - st > max_run_time cfg" and "\<not> pause_event s"
    and "maybe_switch_device cfg s = (Inr u, s1)"
    and "get_screen s1 = (Some screen, s2)"
    and "check_notupo_after_button10 s"
    and "now s2 - last_button10_click_time s \<le> 1"
  shows "yuhun_loop (Suc fuel) cfg st s =
           (if find_template cfg ''lose'' screen \<noteq> None
            then Some (False, set_pause (emit (Find ''lose'') s2))
            else if find_template cfg ''notupo'' screen \<noteq> None
            then Some (False, set_pause (emit (Find ''notupo'') (emit (Find ''lose'') s2)))
            else yuhun_loop fuel cfg st
                   (sleep 0.1 (emit (Find ''notupo'') (emit (Find ''lose'') s2))))
       \<and> events_since s2 (snd (yuhun_body cfg st s)) =
           (if find_template cfg ''lose'' screen \<noteq> None then [Find ''lose'', SetPause]
            else if find_template cfg ''notupo'' screen \<noteq> None
            then [Find ''lose'', Find ''notupo'', SetPause]
            else [Find ''lose'', Find ''notupo'', Sleep 0.1])"
proof -
  have k: "check_notupo_after_button10 s2" "last_button10_click_time s2 = last_button10_click_time s"
    using maybe_switch_keeps[OF assms(4)] get_screen_keeps[OF assms(5)] assms(6) by simp_all
  show ?thesis
    using assms k
    by (cases "find_template cfg ''lose'' screen"; cases "find_template cfg ''notupo'' screen")
       (simp_all add: yuhun_body_def yuhun_frame_def yuhun_gate_def set_pause_def emit_def
         sleep_def events_since_def Let_def)
qed


text \<open>
  With the check armed, a frame showing button1 alone is answered by a short sleep and no tap;
  the next frame shows notupo and pauses the session. The tap script is untouched.
\<close>

theorem gate_wait_checks_notupo_only_witness:
  "yuhun_loop (Suc (Suc 0)) yuhun_config 10 gate_state
     = Some (False,
         gate_state\<lparr>now := 10.3, pause_event := True, captures := [],
           log := [(10, Capture True), (10.1, Find ''lose''), (10.1, Find ''notupo''),
                   (10.1, Sleep 0.1), (10.2, Capture True), (10.3, Find ''lose''),
                   (10.3, Find ''notupo''), (10.3, SetPause)]\<rparr>)
   \<and> find_template yuhun_config ''button1'' (showing [(''button1'', 300, 300)]) = Some (330, 320)"
proof -
  let ?fr = "showing [(''button1'', 300, 300)]"
  have a: "\<not> stop_event gate_state" "\<not> now gate_state - 10 > max_run_time yuhun_config"
    "\<not> pause_event gate_state"
    by (simp_all add: gate_state_def start_state_def max_run_time_def yuhun_config_def)
  have sw: "maybe_switch_device yuhun_config gate_state = (Inr (), gate_state)"
    by (simp add: maybe_switch_device_def should_switch_device_def gate_state_def start_state_def)
  have gs: "get_screen gate_state = (Some ?fr, snd (get_screen gate_state))"
    by (simp add: get_screen_def no_device_def get_device_id_def gate_state_def start_state_def)
  have armed: "check_notupo_after_button10 gate_state"
    "now (snd (get_screen gate_state)) - last_button10_click_time gate_state \<le> 1"
    by (simp_all add: get_screen_def no_device_def get_device_id_def emit_def gate_state_def
        start_state_def)
  have fl: "find_template yuhun_config ''lose'' ?fr = None"
    "find_template yuhun_config ''notupo'' ?fr = None"
    by (simp_all add: find_template_def load_template_def threshold_of_def showing_def
        yuhun_config_def)
  have fb: "find_template yuhun_config ''button1'' ?fr = Some (330, 320)"
    by (simp add: find_template_def load_template_def threshold_of_def showing_def yuhun_config_def)
  from gate_wait_checks_notupo_only[OF a sw gs armed, of "Suc 0"] fl
  have "yuhun_loop (Suc (Suc 0)) yuhun_config 10 gate_state
     = yuhun_loop (Suc 0) yuhun_config 10
         (sleep 0.1 (emit (Find ''notupo'') (emit (Find ''lose'') (snd (get_screen gate_state)))))"
    by simp
  then show ?thesis
    using fb
    by (simp add: engine_defs gate_state_def start_state_def yuhun_config_def)
qed

section \<open>Button5 follows button4\<close>

lemma randint_range:
  assumes "randint a b s = (v, s1)" and "a \<le> b"
  shows "a \<le> v \<and> v \<le> b"
proof (cases "rand_ints s")
  case Nil
  with assms show ?thesis by (simp add: randint_def)
next
  case (Cons k rest)
  have "k mod nat (b - a + 1) < nat (b - a + 1)" using assms(2) by simp
  then have "int (k mod nat (b - a + 1)) < b - a + 1" by linarith
  with assms Cons show ?thesis by (auto simp: randint_def)
qed

lemma randint_keeps:
  "randint a b s = (v, s1) \<Longrightarrow>
     log s1 = log s \<and> now s1 = now s \<and> active_device s1 = active_device s \<and> taps s1 = taps s"
  by (auto simp: randint_def split: list.splits)

lemma no_device_cong: "active_device s' = active_device s \<Longrightarrow> no_device s' = no_device s"
  by (simp add: no_device_def get_device_id_def)

lemma random_click_events:
  assumes "random_click x y n s = (ok, s')" and "\<not> no_device s"
  shows "\<exists>tx ty. log s' = log s @ [(now s, RandomClick n tx ty), (now s, Tap tx ty ok)]
            \<and> \<bar>tx - x\<bar> \<le> 10 \<and> \<bar>ty - y\<bar> \<le> 10"
proof -
  obtain ox s1 where r1: "randint (- 10) 10 s = (ox, s1)" by (cases "randint (- 10) 10 s")
  obtain oy s2 where r2: "randint (- 10) 10 s1 = (oy, s2)" by (cases "randint (- 10) 10 s1")
  note k1 = randint_keeps[OF r1] and k2 = randint_keeps[OF r2]
  have b: "\<bar>ox\<bar> \<le> 10" "\<bar>oy\<bar> \<le> 10"
    using randint_range[OF r1] randint_range[OF r2] by auto
  let ?s3 = "emit (RandomClick n (x + ox) (y + oy)) s2"
  have nd: "\<not> no_device ?s3"
    using assms(2) k1 k2 by (simp add: no_device_def get_device_id_def emit_def)
  have c: "click (x + ox) (y + oy) ?s3 = (ok, s')"
    using assms(1) r1 r2 by (simp add: random_click_def Let_def)
  have "log s' = log s @ [(now s, RandomClick n (x + ox) (y + oy)), (now s, Tap (x + ox) (y + oy) ok)]"
    using c nd k1 k2 by (auto simp: click_def emit_def split: list.splits)
  with b show ?thesis by auto
qed

lemma click_button_events:
  assumes "click_button cfg n x y s = (r, s')" and "\<not> no_device s"
  shows "\<exists>tx ty ok evs. log s' = log s @ (now s, RandomClick (Some n) tx ty) # (now s, Tap tx ty ok) # evs
            \<and> filter is_click (map snd evs) = []
            \<and> \<bar>tx - x\<bar> \<le> 10 \<and> \<bar>ty - y\<bar> \<le> 10"
proof -
  obtain ok s1 where rc: "random_click x y (Some n) s = (ok, s1)"
    by (cases "random_click x y (Some n) s")
  from random_click_events[OF rc assms(2)] obtain tx ty where
    l: "log s1 = log s @ [(now s, RandomClick (Some n) tx ty), (now s, Tap tx ty ok)]"
    and b: "\<bar>tx - x\<bar> \<le> 10" "\<bar>ty - y\<bar> \<le> 10" by blast
  have "\<exists>evs. log s' = log s1 @ evs \<and> filter is_click (map snd evs) = []"
    using assms(1) rc
    by (auto simp: click_button_def Let_def random_delay_def uniform_def random_def sleep_def
        emit_def split: if_splits option.splits prod.splits list.splits)
  with l b show ?thesis by auto
qed

lemma get_screen_Some:
  "get_screen s = (Some fr, s') \<Longrightarrow> \<not> no_device s \<and> active_device s' = active_device s
     \<and> last_button_clicked s' = last_button_clicked s"
  by (auto simp: get_screen_def emit_def split: if_splits list.splits)

text \<open>
  C5: in a pass that reaches the candidate list (the frame does not match lose, and the notupo
  check is off or has just run out), when the first candidate is button5, the last button
  clicked is not button4 and the frame shows button4, the only tap of the pass is aimed at
  button4, within ten pixels of its centre on either axis, and the loop goes on to the next
  pass without a tap on button5.
\<close>

theorem button5_waits_for_button4:
  assumes "\<not> pause_event s"
    and "maybe_switch_device cfg s = (Inr u, s1)"
    and "get_screen s1 = (Some screen, s2)"
    and "find_template cfg ''lose'' screen = None"
    and "\<not> check_notupo_after_button10 s
         \<or> (find_template cfg ''notupo'' screen = None \<and> now s2 - last_button10_click_time s > 1)"
    and "detect_all_buttons cfg screen (template_sets cfg) = b # rest"
    and "name b = ''button5''"
    and "last_button_clicked s \<noteq> Some ''button4''"
    and "find_template cfg ''button4'' screen = Some (x4, y4)"
  shows "fst (yuhun_body cfg st s) = Continue
       \<and> (\<exists>tx ty ok. filter is_click (events_since s2 (snd (yuhun_body cfg st s)))
                        = [RandomClick (Some ''button4'') tx ty, Tap tx ty ok]
                    \<and> \<bar>tx - x4\<bar> \<le> 10 \<and> \<bar>ty - y4\<bar> \<le> 10)"
proof -
  note k1 = maybe_switch_keeps[OF assms(2)] and k2 = get_screen_keeps[OF assms(3)]
    and g = get_screen_Some[OF assms(3)]
  define s3 where "s3 = (if check_notupo_after_button10 s
      then (emit (Find ''notupo'') (emit (Find ''lose'') s2))\<lparr>check_notupo_after_button10 := False\<rparr>
      else emit (Find ''lose'') s2)"
  have body: "yuhun_body cfg st s = yuhun_buttons cfg st screen s3"
    using assms(1-5) k1 k2
    by (auto simp: yuhun_body_def yuhun_frame_def yuhun_gate_def s3_def emit_def)
  define s5 where "s5 = emit (Find ''button4'') (emit (DetectAll (template_sets cfg)) s3)"
  have l5: "\<exists>pre. log s5 = log s2 @ pre \<and> filter is_click (map snd pre) = []"
    by (auto simp: s5_def s3_def emit_def)
  have nd: "\<not> no_device s5"
    using g no_device_cong[of s5 s2] no_device_cong[of s2 s1]
    by (simp add: s5_def s3_def emit_def)
  have last3: "last_button_clicked (emit (DetectAll (template_sets cfg)) s3) \<noteq> Some ''button4''"
    using assms(8) k1 k2 by (simp add: s3_def emit_def)
  obtain r s6 where cb: "click_button cfg ''button4'' x4 y4 s5 = (r, s6)"
    by (cases "click_button cfg ''button4'' x4 y4 s5")
  have res: "yuhun_buttons cfg st screen s3 = (Continue, (case r of Inl e \<Rightarrow> sleep 1 s6 | Inr c \<Rightarrow> s6))"
    using assms(6,7,9) last3 cb
    by (simp add: yuhun_buttons_def Let_def s5_def split: sum.splits)
  from click_button_events[OF cb nd] obtain tx ty ok evs where
    l6: "log s6 = log s5 @ (now s5, RandomClick (Some ''button4'') tx ty) # (now s5, Tap tx ty ok) # evs"
    and f: "filter is_click (map snd evs) = []"
    and bd: "\<bar>tx - x4\<bar> \<le> 10" "\<bar>ty - y4\<bar> \<le> 10" by blast
  from l5 obtain pre where p: "log s5 = log s2 @ pre" "filter is_click (map snd pre) = []" by blast
  have "filter is_click (events_since s2 (case r of Inl e \<Rightarrow> sleep 1 s6 | Inr c \<Rightarrow> s6))
          = [RandomClick (Some ''button4'') tx ty, Tap tx ty ok]"
    using l6 f p by (cases r) (simp_all add: events_since_def sleep_def emit_def)
  with body res bd show ?thesis by auto
qed


text \<open>
  The frame shows both buttons and button5 has the higher precedence: the pass taps button4,
  whose centre is (230, 320).
\<close>

theorem button5_waits_for_button4_witness:
  "hd (detect_all_buttons yuhun_config
         (showing [(''button5'', 500, 400), (''button4'', 200, 300)]) (template_sets yuhun_config))
     = \<lparr>name = ''button5'', position = (530, 420), score = 0.95, priority = 2\<rparr>
   \<and> fst (yuhun_body yuhun_config 0 sequence_state) = Continue
   \<and> filter is_click
        (events_since sequence_state (snd (yuhun_body yuhun_config 0 sequence_state)))
       = [RandomClick (Some ''button4'') 233 317, Tap 233 317 True]
   \<and> last_button_clicked (snd (yuhun_body yuhun_config 0 sequence_state)) = Some ''button4''"
proof -
  let ?fr = "showing [(''button5'', 500, 400), (''button4'', 200, 300)]"
  have np: "\<not> pause_event sequence_state" by (simp add: sequence_state_def start_state_def)
  have sw: "maybe_switch_device yuhun_config sequence_state = (Inr (), sequence_state)"
    by (simp add: maybe_switch_device_def should_switch_device_def sequence_state_def
        start_state_def)
  have gs: "get_screen sequence_state = (Some ?fr, snd (get_screen sequence_state))"
    by (simp add: get_screen_def no_device_def get_device_id_def sequence_state_def
        start_state_def)
  have fl: "find_template yuhun_config ''lose'' ?fr = None"
    by (simp add: find_template_def load_template_def threshold_of_def showing_def yuhun_config_def)
  have gate: "\<not> check_notupo_after_button10 sequence_state
      \<or> (find_template yuhun_config ''notupo'' ?fr = None
          \<and> now (snd (get_screen sequence_state)) - last_button10_click_time sequence_state > 1)"
    by (simp add: sequence_state_def start_state_def)
  have det: "detect_all_buttons yuhun_config ?fr (template_sets yuhun_config)
      = \<lparr>name = ''button5'', position = (530, 420), score = 0.95, priority = 2\<rparr>
        # [\<lparr>name = ''button4'', position = (230, 320), score = 0.95, priority = 3\<rparr>]"
    by (simp add: detect_all_buttons_def find_template_def load_template_def threshold_of_def
        priority_of_def showing_def yuhun_config_def)
  have nm: "name \<lparr>name = ''button5'', position = (530, 420), score = 0.95, priority = 2\<rparr>
      = ''button5''" by simp
  have lb: "last_button_clicked sequence_state \<noteq> Some ''button4''"
    by (simp add: sequence_state_def start_state_def)
  have f4: "find_template yuhun_config ''button4'' ?fr = Some (230, 320)"
    by (simp add: find_template_def load_template_def threshold_of_def showing_def yuhun_config_def)
  from button5_waits_for_button4[OF np sw gs fl gate det nm lb f4, of 0]
  have "fst (yuhun_body yuhun_config 0 sequence_state) = Continue" by simp
  moreover have "filter is_click
        (events_since sequence_state (snd (yuhun_body yuhun_config 0 sequence_state)))
       = [RandomClick (Some ''button4'') 233 317, Tap 233 317 True]
     \<and> last_button_clicked (snd (yuhun_body yuhun_config 0 sequence_state)) = Some ''button4''"
    by (simp add: engine_defs sequence_state_def start_state_def yuhun_config_def)
  ultimately show ?thesis using det by simp
qed

section \<open>The time budget of a call\<close>

text \<open>
  C4 (as amended): the budget is checked at fixed places. In the Yuhun module, at the top of
  every pass of the loop, and before the wait that precedes the tap on button7; in the Baigui
  module, right after the capture. A check that finds the budget exceeded makes the call return
  \<^verbatim>\<open>False\<close> at once, with no event after it; and the loop of the thread goes on with its
  next pass after a call has returned.
\<close>

theorem budget_checkpoints:
  "(\<not> stop_event s \<and> now s - st > max_run_time cfg
      \<longrightarrow> yuhun_loop (Suc fuel) cfg st s = Some (False, s))
   \<and> (name b = ''button7'' \<and> now t - st + fst (uniform 0.5 1.5 t) > max_run_time cfg
      \<longrightarrow> fst (yuhun_dispatch cfg st b t) = Return False
          \<and> events_since t (snd (yuhun_dispatch cfg st b t)) = [])
   \<and> (\<not> pause_event v \<and> maybe_switch_device cfg v = (Inr u, v1)
        \<and> get_screen v1 = (Some screen, v2) \<and> now v2 - now v > max_run_time cfg
      \<longrightarrow> baigui_run_once cfg v = (False, v2\<lparr>consecutive_errors := 0\<rparr>))
   \<and> (\<not> stop_event w \<and> now w < end_time \<and> \<not> pause_event w
        \<and> run_once m tick_fuel cfg w = Some (r, w1)
      \<longrightarrow> thread_loop (Suc fuel) m tick_fuel cfg end_time w
            = thread_loop fuel m tick_fuel cfg end_time w1)"
proof -
  have p2: "name b = ''button7'' \<and> now t - st + fst (uniform 0.5 1.5 t) > max_run_time cfg
      \<longrightarrow> fst (yuhun_dispatch cfg st b t) = Return False
          \<and> events_since t (snd (yuhun_dispatch cfg st b t)) = []"
    by (auto simp: yuhun_dispatch_def Let_def uniform_def random_def events_since_def
        split: prod.splits list.splits)
  have p3: "\<not> pause_event v \<and> maybe_switch_device cfg v = (Inr u, v1)
        \<and> get_screen v1 = (Some screen, v2) \<and> now v2 - now v > max_run_time cfg
      \<longrightarrow> baigui_run_once cfg v = (False, v2\<lparr>consecutive_errors := 0\<rparr>)"
    by (simp add: baigui_run_once_def baigui_body_def Let_def)
  show ?thesis using p2 p3 by simp
qed

text \<open>
  A pass that starts six seconds into the call; a button7 found four seconds into the call,
  with a wait of 1.4 seconds drawn; a Baigui capture that blocks for six seconds; and a thread
  whose call ran into the budget and which then meets its deadline.
\<close>

theorem budget_checkpoints_witness:
  "yuhun_loop (Suc (Suc 0)) yuhun_config 0 (start_state\<lparr>now := 6\<rparr>)
     = Some (False, start_state\<lparr>now := 6\<rparr>)
   \<and> yuhun_dispatch yuhun_config 0
        \<lparr>name = ''button7'', position = (330, 320), score = 0.95, priority = 0\<rparr>
        (start_state\<lparr>now := 4, rand_floats := [0.9], taps := [(0.1, True)]\<rparr>)
     = (Return False, start_state\<lparr>now := 4, rand_floats := [], taps := [(0.1, True)]\<rparr>)
   \<and> baigui_run_once yuhun_config slow_capture_state
     = (False, slow_capture_state\<lparr>now := 6, captures := [], log := [(0, Capture True)]\<rparr>)
   \<and> thread_loop (Suc (Suc 0)) YuhunModule (Suc (Suc 0)) yuhun_config 6.5
        (start_state\<lparr>captures := [(6, None)]\<rparr>)
     = Some (start_state\<lparr>now := 7, stop_event := True, captures := [],
         log := [(0, Capture False), (6, Sleep 1), (7, SetStop)]\<rparr>)"
proof -
  let ?b = "\<lparr>name = ''button7'', position = (330, 320), score = 0.95, priority = 0\<rparr>"
  let ?t = "start_state\<lparr>now := 4, rand_floats := [0.9], taps := [(0.1, True)]\<rparr>"
  let ?w = "start_state\<lparr>captures := [(6, None)]\<rparr>"
  let ?w1 = "start_state\<lparr>now := 7, captures := [], log := [(0, Capture False), (6, Sleep 1)]\<rparr>"
  let ?fr = "showing [(''button1'', 300, 300)]"
  have h1: "\<not> stop_event (start_state\<lparr>now := 6\<rparr>)
      \<and> now (start_state\<lparr>now := 6\<rparr>) - 0 > max_run_time yuhun_config"
    by (simp add: start_state_def max_run_time_def yuhun_config_def)
  have h2: "name ?b = ''button7'' \<and> now ?t - 0 + fst (uniform 0.5 1.5 ?t) > max_run_time yuhun_config"
    by (simp add: start_state_def max_run_time_def yuhun_config_def uniform_def random_def)
  have h3: "\<not> pause_event slow_capture_state
      \<and> maybe_switch_device yuhun_config slow_capture_state = (Inr (), slow_capture_state)
      \<and> get_screen slow_capture_state = (Some ?fr, snd (get_screen slow_capture_state))
      \<and> now (snd (get_screen slow_capture_state)) - now slow_capture_state
          > max_run_time yuhun_config"
    by (simp add: maybe_switch_device_def should_switch_device_def get_screen_def no_device_def
        get_device_id_def emit_def max_run_time_def slow_capture_state_def start_state_def
        yuhun_config_def)
  have h4: "\<not> stop_event ?w \<and> now ?w < 6.5 \<and> \<not> pause_event ?w
      \<and> run_once YuhunModule (Suc (Suc 0)) yuhun_config ?w = Some (False, ?w1)"
    by (simp add: run_once_def engine_defs start_state_def yuhun_config_def)
  from budget_checkpoints[where s = "start_state\<lparr>now := 6\<rparr>" and st = 0 and cfg = yuhun_config
      and fuel = "Suc 0" and b = ?b and t = ?t and v = slow_capture_state
      and ?v1.0 = slow_capture_state and u = "()" and screen = ?fr
      and ?v2.0 = "snd (get_screen slow_capture_state)" and w = ?w and end_time = "6.5"
      and m = YuhunModule and tick_fuel = "Suc (Suc 0)" and r = False and ?w1.0 = ?w1]
    h1 h2 h3 h4
  have "yuhun_loop (Suc (Suc 0)) yuhun_config 0 (start_state\<lparr>now := 6\<rparr>)
          = Some (False, start_state\<lparr>now := 6\<rparr>)"
    and "fst (yuhun_dispatch yuhun_config 0 ?b ?t) = Return False"
    and "baigui_run_once yuhun_config slow_capture_state
          = (False, (snd (get_screen slow_capture_state))\<lparr>consecutive_errors := 0\<rparr>)"
    and "thread_loop (Suc (Suc 0)) YuhunModule (Suc (Suc 0)) yuhun_config 6.5 ?w
          = thread_loop (Suc 0) YuhunModule (Suc (Suc 0)) yuhun_config 6.5 ?w1"
    by simp_all
  moreover have "snd (yuhun_dispatch yuhun_config 0 ?b ?t)
      = start_state\<lparr>now := 4, rand_floats := [], taps := [(0.1, True)]\<rparr>"
    by (simp add: yuhun_dispatch_def uniform_def random_def max_run_time_def yuhun_config_def
        start_state_def)
  ultimately show ?thesis
    by (simp add: prod_eq_iff get_screen_def no_device_def get_device_id_def emit_def set_stop_def
        slow_capture_state_def start_state_def)
qed

text \<open>
  C4 (as stated) fails: nothing is checked between the capture and the tap. With the default
  budget of five seconds, a call whose capture blocks for six seconds goes on to tap button1
  six seconds after its start.
\<close>

theorem tap_after_budget:
  "yuhun_run_once (Suc 0) yuhun_config slow_capture_state
     = Some (True,
         slow_capture_state\<lparr>now := 6.85, last_button_clicked := Some ''button1'',
           captures := [], taps := [], rand_ints := [], rand_floats := [],
           log := [(0, Capture True), (6, Find ''lose''),
                   (6, DetectAll [''button1'', ''button4'', ''button5'', ''button7'', ''button10'']),
                   (6, RandomClick (Some ''button1'') 333 317), (6, Tap 333 317 True),
                   (6.1, Sleep 0.75)]\<rparr>)
   \<and> now slow_capture_state = 0 \<and> max_run_time yuhun_config = 5"
  by (simp add: engine_defs slow_capture_state_def start_state_def yuhun_config_def)

section \<open>The deadline of a session\<close>

lemma yuhun_body_stop: "stop_event (snd (yuhun_body cfg st s)) = stop_event s"
proof (cases "pause_event s")
  case True
  then show ?thesis by (simp add: yuhun_body_def sleep_def emit_def)
next
  case False
  obtain r s1 where sw: "maybe_switch_device cfg s = (r, s1)"
    by (cases "maybe_switch_device cfg s")
  obtain fr s2 where gs: "get_screen s1 = (fr, s2)" by (cases "get_screen s1")
  have a1: "stop_event s1 = stop_event s" using maybe_switch_keeps[OF sw] by simp
  have a2: "stop_event s2 = stop_event s"
    using engine_step_get_screen[OF gs] a1 by (simp add: engine_step_def)
  show ?thesis
  proof (cases r)
    case (Inl e)
    with False sw a1 show ?thesis by (simp add: yuhun_body_def sleep_def emit_def)
  next
    case (Inr u)
    show ?thesis
    proof (cases fr)
      case None
      with False sw gs Inr a2 show ?thesis by (simp add: yuhun_body_def sleep_def emit_def)
    next
      case (Some screen)
      obtain f s3 where fr: "yuhun_frame cfg st screen s2 = (f, s3)"
        by (cases "yuhun_frame cfg st screen s2")
      from engine_step_yuhun_frame[OF fr] a2 have "stop_event s3 = stop_event s"
        by (simp add: engine_step_def)
      with False sw gs Inr Some fr show ?thesis by (simp add: yuhun_body_def)
    qed
  qed
qed

lemma yuhun_loop_stop:
  "yuhun_loop fuel cfg st s = Some (r, s') \<Longrightarrow> stop_event s' = stop_event s"
proof (induction fuel arbitrary: s)
  case 0
  then show ?case by simp
next
  case (Suc fuel)
  obtain f s1 where b: "yuhun_body cfg st s = (f, s1)" by (cases "yuhun_body cfg st s")
  have s1: "stop_event s1 = stop_event s" using yuhun_body_stop[of cfg st s] b by simp
  show ?case
  proof (cases "stop_event s \<or> now s - st > max_run_time cfg")
    case True
    with Suc.prems show ?thesis by (auto split: if_splits)
  next
    case False
    show ?thesis
    proof (cases f)
      case (Return x)
      with Suc.prems False b s1 show ?thesis by auto
    next
      case Continue
      with Suc.prems False b have "yuhun_loop fuel cfg st s1 = Some (r, s')" by simp
      from Suc.IH[OF this] s1 show ?thesis by simp
    qed
  qed
qed

lemma baigui_run_once_stop: "stop_event (snd (baigui_run_once cfg s)) = stop_event s"
proof (cases "pause_event s")
  case True
  then show ?thesis by (simp add: baigui_run_once_def baigui_body_def sleep_def emit_def)
next
  case False
  obtain r s1 where sw: "maybe_switch_device cfg s = (r, s1)"
    by (cases "maybe_switch_device cfg s")
  obtain fr s2 where gs: "get_screen s1 = (fr, s2)" by (cases "get_screen s1")
  have a1: "stop_event s1 = stop_event s" using maybe_switch_keeps[OF sw] by simp
  have a2: "stop_event s2 = stop_event s"
    using engine_step_get_screen[OF gs] a1 by (simp add: engine_step_def)
  show ?thesis
  proof (cases r)
    case (Inl e)
    with False sw a1 show ?thesis
      by (simp add: baigui_run_once_def baigui_body_def sleep_def emit_def)
  next
    case (Inr u)
    show ?thesis
    proof (cases fr)
      case None
      with False sw gs Inr a2 show ?thesis
        by (simp add: baigui_run_once_def baigui_body_def Let_def set_pause_def emit_def)
    next
      case (Some screen)
      with False sw gs Inr a2 show ?thesis
        by (auto simp: baigui_run_once_def baigui_body_def Let_def emit_def engine_step_def
            split: list.splits flow.splits prod.splits
            dest!: engine_step_baigui_dispatch engine_step_baigui_idle)
    qed
  qed
qed

lemma run_once_stop:
  "run_once m tick_fuel cfg s = Some (r, s') \<Longrightarrow> stop_event s' = stop_event s"
  using yuhun_loop_stop[of tick_fuel cfg "now s" s r s'] baigui_run_once_stop[of cfg s]
  by (cases m) (auto simp: run_once_def yuhun_run_once_def)

lemma thread_loop_exit:
  "thread_loop fuel m tick_fuel cfg end_time s = Some s' \<Longrightarrow> \<not> stop_event s \<Longrightarrow>
     stop_event s' \<and> now s' \<ge> end_time \<and> last (log s') = (now s', SetStop)"
proof (induction fuel arbitrary: s)
  case 0
  then show ?case by simp
next
  case (Suc fuel)
  show ?case
  proof (cases "now s \<ge> end_time")
    case True
    with Suc.prems show ?thesis by (auto simp: set_stop_def emit_def)
  next
    case late: False
    show ?thesis
    proof (cases "pause_event s")
      case True
      with Suc.prems late have "thread_loop fuel m tick_fuel cfg end_time (sleep 1 s) = Some s'"
        by simp
      moreover have "\<not> stop_event (sleep 1 s)" using Suc.prems by (simp add: sleep_def emit_def)
      ultimately show ?thesis by (rule Suc.IH)
    next
      case False
      with Suc.prems late obtain r s1 where
        t: "run_once m tick_fuel cfg s = Some (r, s1)"
        and l: "thread_loop fuel m tick_fuel cfg end_time s1 = Some s'"
        by (auto split: option.splits)
      from run_once_stop[OF t] Suc.prems have "\<not> stop_event s1" by simp
      with l show ?thesis by (rule Suc.IH)
    qed
  qed
qed

lemma deadline_run:
  "thread_loop (Suc (Suc (Suc 0))) YuhunModule 7 yuhun_config 60 deadline_state
     = Some deadline_result"
  by (simp add: run_once_def engine_defs deadline_state_def deadline_result_def start_state_def
      yuhun_config_def eval_nat_numeral)

text \<open>
  C9 (as amended): at the top of every pass, the loop of \<^verbatim>\<open>DeviceThread.run\<close> compares the
  clock with the end time, and at the first reading that has reached it, sets the stop signal
  and exits without another call of \<^verbatim>\<open>run_once\<close>. Left to itself the loop exits in no other
  way: when it ends, the stop signal is set, the clock has reached the end time, and setting
  the signal was the last thing done, at that reading.
\<close>

theorem deadline_checked_at_loop_top:
  "(\<not> stop_event s \<and> now s \<ge> end_time
      \<longrightarrow> thread_loop (Suc fuel) m tick_fuel cfg end_time s = Some (set_stop s))
   \<and> (\<not> stop_event t \<and> thread_loop fuel m tick_fuel cfg end_time t = Some t'
      \<longrightarrow> stop_event t' \<and> now t' \<ge> end_time \<and> last (log t') = (now t', SetStop))"
  using thread_loop_exit[of fuel m tick_fuel cfg end_time t t'] by simp

text \<open>
  A thread that finds the clock one second past the end time, and the session whose captures
  fail, run for one minute.
\<close>

theorem deadline_checked_at_loop_top_witness:
  "thread_loop (Suc 0) YuhunModule 7 yuhun_config 60 (start_state\<lparr>now := 61\<rparr>)
     = Some (start_state\<lparr>now := 61, stop_event := True, log := [(61, SetStop)]\<rparr>)
   \<and> stop_event deadline_result \<and> now deadline_result \<ge> 60
   \<and> last (log deadline_result) = (now deadline_result, SetStop)"
proof -
  have h1: "\<not> stop_event (start_state\<lparr>now := 61\<rparr>) \<and> now (start_state\<lparr>now := 61\<rparr>) \<ge> 60"
    by (simp add: start_state_def)
  have h2: "\<not> stop_event deadline_state" by (simp add: deadline_state_def start_state_def)
  from deadline_checked_at_loop_top[where s = "start_state\<lparr>now := 61\<rparr>" and end_time = 60
      and fuel = 0 and m = YuhunModule and tick_fuel = 7 and cfg = yuhun_config
      and t = deadline_state and t' = deadline_result] h1
  have a: "thread_loop (Suc 0) YuhunModule 7 yuhun_config 60 (start_state\<lparr>now := 61\<rparr>)
            = Some (set_stop (start_state\<lparr>now := 61\<rparr>))"
    by simp
  have "thread_loop (Suc (Suc (Suc 0))) YuhunModule 7 yuhun_config 60 deadline_state
     = Some deadline_result \<longrightarrow> stop_event deadline_result \<and> now deadline_result \<ge> 60
   \<and> last (log deadline_result) = (now deadline_result, SetStop)"
    using deadline_checked_at_loop_top[where t = deadline_state and t' = deadline_result
        and fuel = "Suc (Suc (Suc 0))" and m = YuhunModule and tick_fuel = 7
        and cfg = yuhun_config and end_time = 60] h2
    by simp
  with deadline_run a show ?thesis
    by (simp add: set_stop_def emit_def start_state_def)
qed

text \<open>
  C9 (as stated) fails: a call of \<^verbatim>\<open>run_once\<close> that starts half a second before the end time
  sleeps one second after each failed capture and returns six seconds after its start, so a
  session of one minute, started at 0, stops at 65.5, later than the end time plus the budget
  of five seconds.
\<close>

theorem deadline_overrun:
  "device_thread_run (Suc (Suc (Suc 0))) YuhunModule 7 yuhun_config 1 deadline_state
     = Some deadline_result
   \<and> now deadline_state = 0 \<and> stop_event deadline_result
   \<and> now deadline_result = 65.5 \<and> max_run_time yuhun_config = 5
   \<and> now deadline_result > now deadline_state + 60 * 1 + max_run_time yuhun_config"
  using deadline_run
  by (simp add: device_thread_run_def deadline_state_def deadline_result_def start_state_def
      max_run_time_def yuhun_config_def)

section \<open>Jitter of the tap\<close>

lemma py_int_abs: "\<bar>real_of_int (py_int r)\<bar> \<le> \<bar>r\<bar>"
proof (cases "r \<ge> 0")
  case True
  then show ?thesis by (simp add: py_int_def)
next
  case False
  then have "\<lceil>r\<rceil> \<le> 0" by (simp add: ceiling_le_iff)
  moreover have "r \<le> real_of_int \<lceil>r\<rceil>" by simp
  ultimately show ?thesis using False by (simp add: py_int_def)
qed

lemma py_int_square: "(real_of_int (py_int r))\<^sup>2 \<le> r\<^sup>2"
  using py_int_abs[of r] by (simp add: abs_le_square_iff)

text \<open>The earlier script jitters by radius and angle: its tap lies in the disc of the radius.\<close>

lemma auto_clicker_target_in_disc:
  assumes "auto_clicker_target x y offset angle = (cx, cy)"
  shows "(cx - x)\<^sup>2 + (cy - y)\<^sup>2 \<le> offset\<^sup>2"
proof -
  let ?a = "real_of_int offset * cos angle" and ?b = "real_of_int offset * sin angle"
  have c: "cx - x = py_int ?a" "cy - y = py_int ?b"
    using assms by (simp_all add: auto_clicker_target_def Let_def)
  have "(real_of_int (py_int ?a))\<^sup>2 + (real_of_int (py_int ?b))\<^sup>2 \<le> ?a\<^sup>2 + ?b\<^sup>2"
    using py_int_square[of ?a] py_int_square[of ?b] by linarith
  also have "?a\<^sup>2 + ?b\<^sup>2 = (real_of_int offset)\<^sup>2 * ((cos angle)\<^sup>2 + (sin angle)\<^sup>2)"
    by (simp only: power_mult_distrib distrib_left)
  also have "\<dots> = (real_of_int offset)\<^sup>2" by (simp only: sin_cos_squared_add2 mult_1_right)
  finally have "real_of_int ((py_int ?a)\<^sup>2 + (py_int ?b)\<^sup>2) \<le> real_of_int (offset\<^sup>2)"
    by simp
  then have "(py_int ?a)\<^sup>2 + (py_int ?b)\<^sup>2 \<le> offset\<^sup>2" by linarith
  with c show ?thesis by simp
qed

text \<open>
  \<^verbatim>\<open>InputController.random_click\<close> jitters each axis by itself: the first draw alone gives
  the horizontal offset, the second alone the vertical one.
\<close>

lemma random_click_per_axis:
  assumes "\<not> no_device s" and "rand_ints s = k1 # k2 # rest"
  shows "\<exists>ok. events_since s (snd (random_click x y n s))
           = [RandomClick n (x + (- 10 + int (k1 mod 21))) (y + (- 10 + int (k2 mod 21))),
              Tap (x + (- 10 + int (k1 mod 21))) (y + (- 10 + int (k2 mod 21))) ok]"
  using assms
  by (auto simp: random_click_def randint_def click_def Let_def emit_def events_since_def
      no_device_def get_device_id_def split: list.splits option.splits)

text \<open>
  C7 fails on \<^verbatim>\<open>InputController.random_click\<close>, through which every tap of the modules
  goes: around the centre (100, 100) it reaches the corners of the square of side 20, which
  lie outside the circle of radius 10, and the centre itself; changing one draw moves the tap
  along one axis only.
\<close>

theorem random_click_jitter_fills_square:
  "events_since (jitter_state 20 20)
      (snd (random_click 100 100 (Some ''button1'') (jitter_state 20 20)))
     = [RandomClick (Some ''button1'') 110 110, Tap 110 110 True]
   \<and> events_since (jitter_state 20 0)
      (snd (random_click 100 100 (Some ''button1'') (jitter_state 20 0)))
     = [RandomClick (Some ''button1'') 110 90, Tap 110 90 True]
   \<and> events_since (jitter_state 0 20)
      (snd (random_click 100 100 (Some ''button1'') (jitter_state 0 20)))
     = [RandomClick (Some ''button1'') 90 110, Tap 90 110 True]
   \<and> events_since (jitter_state 10 10)
      (snd (random_click 100 100 (Some ''button1'') (jitter_state 10 10)))
     = [RandomClick (Some ''button1'') 100 100, Tap 100 100 True]
   \<and> (110 - 100)\<^sup>2 + (110 - 100)\<^sup>2 > (10::int)\<^sup>2"
  by (simp add: random_click_def randint_def click_def Let_def emit_def events_since_def
      no_device_def get_device_id_def jitter_state_def start_state_def)

section \<open>Capture failures that are not counted\<close>

text \<open>
  C8 (as stated) fails. In a Baigui session the capture made after the click on button2 fails
  without being counted: after it and five failed opening captures, six captures have failed in
  a row, the counter is at five and the session is not paused. And a Yuhun session keeps no
  counter: after seven failed captures in a row it is not paused either.
\<close>

theorem capture_failures_uncounted:
  "thread_loop (Suc (Suc (Suc (Suc (Suc (Suc (Suc 0))))))) BaiguiModule 0 baigui_config 3
      second_capture_state = Some second_capture_result
   \<and> map snd (drop 6 (log second_capture_result))
       = [Capture False, Capture False, Capture False, Capture False, Capture False,
          Capture False, SetStop]
   \<and> consecutive_errors second_capture_result = 5
   \<and> pause_event second_capture_result = False
   \<and> thread_loop (Suc (Suc (Suc 0))) YuhunModule 7 yuhun_config 60 deadline_state
       = Some deadline_result
   \<and> map snd (log deadline_result)
       = [Capture False, Sleep 1, Capture False, Sleep 1, Capture False, Sleep 1,
          Capture False, Sleep 1, Capture False, Sleep 1, Capture False, Sleep 1,
          Capture False, Sleep 1, SetStop]
   \<and> pause_event deadline_result = False"
proof -
  have "thread_loop (Suc (Suc (Suc (Suc (Suc (Suc (Suc 0))))))) BaiguiModule 0 baigui_config 3
          second_capture_state = Some second_capture_result"
    by (simp add: run_once_def baigui_run_once_def baigui_body_def baigui_dispatch_def
        engine_defs second_capture_state_def second_capture_result_def start_state_def
        baigui_config_def)
  then show ?thesis
    using deadline_run
    by (simp add: second_capture_result_def second_capture_state_def deadline_result_def
        deadline_state_def start_state_def)
qed

end
